theory Spec2Isabelle
  imports Main
begin

section \<open>Shared vocabulary\<close>

text \<open>
  The sources: the schedule tracker (\<^verbatim>\<open>backend/api/emailSchedule.js\<close>, kept in the file of
  \<^verbatim>\<open>schema.sql\<close>), the company and email queries (\<^verbatim>\<open>backend/api/companies.js\<close>,
  \<^verbatim>\<open>emails.js\<close>), content generation and email verification (in the file of
  \<^verbatim>\<open>aiContentGenerator.js\<close>), delivery (in the file of \<^verbatim>\<open>emails.js\<close>), the command-line
  orchestrator (\<^verbatim>\<open>index.js\<close>), and the two n8n functions, the email-tracking webhook and
  the daily workflow (\<^verbatim>\<open>unnamed/part_000\<close>).

  Calendar days are day numbers: the source keys a schedule row by
  \<^verbatim>\<open>date.toISOString().split("T")[0]\<close>, the calendar date in UTC of a \<^verbatim>\<open>Date\<close>. Row
  identifiers (UUIDs) are opaque numbers.

  Every call of the store client answers \<^verbatim>\<open>{ data, error }\<close>. What the store answers is
  not decided by the program, so each call site takes the answer's \<open>error\<close> part as an
  argument of type \<open>fault\<close>: \<open>None\<close> when the call went through, \<open>Some m\<close> when the
  store reported an error with message \<open>m\<close>. A call that reports an error changes no row.
\<close>

type_synonym date = int
type_synonym uuid = nat
type_synonym fault = "string option"

datatype error =
    StoreError string
  | NoScheduleFound date
  | QuotaExceeded date
  | ConfigurationMissing string
  | ExternalServiceFailure string
  | TypeError string
  | RangeError string

text \<open>
  \<open>StoreError m\<close> is the store's error object, thrown as it is;
  \<open>NoScheduleFound d\<close> is \<^verbatim>\<open>Error(`No email schedule found for date ${d}`)\<close>;
  \<open>QuotaExceeded d\<close> is \<^verbatim>\<open>Error(`Email limit reached for date ${d}`)\<close>.
\<close>

fun error_message :: "error \<Rightarrow> string" where
  "error_message (StoreError m) = m"
| "error_message (NoScheduleFound d) = ''No email schedule found for date''"
| "error_message (QuotaExceeded d) = ''Email limit reached for date''"
| "error_message (ConfigurationMissing m) = m"
| "error_message (ExternalServiceFailure m) = m"
| "error_message (TypeError m) = m"
| "error_message (RangeError m) = m"

section \<open>Schedule tracker (backend/api/emailSchedule.js)\<close>

text \<open>
  A row of \<^verbatim>\<open>email_schedule\<close>. The table has \<^verbatim>\<open>UNIQUE(scheduled_date)\<close>, and every
  update of the source addresses the row it has just read for a date
  (\<^verbatim>\<open>.eq("id", schedule.id)\<close>), so a row is identified by its date here. The
  bookkeeping columns \<^verbatim>\<open>id\<close>, \<^verbatim>\<open>created_at\<close> and \<^verbatim>\<open>updated_at\<close> are left out.
\<close>

record schedule =
  scheduled_date :: date
  emails_limit :: int
  emails_sent :: int
  is_completed :: bool

type_synonym schedule_table = "schedule list"

text \<open>
  \<^verbatim>\<open>DAILY_EMAIL_LIMIT\<close> and \<^verbatim>\<open>EMAIL_WARMUP_INCREASE_RATE\<close> are read from the
  environment when the module is loaded (defaults 5 and 2).
\<close>

record config =
  daily_email_limit :: int
  email_warmup_increase_rate :: int

definition default_config :: config where
  "default_config = \<lparr>daily_email_limit = 5, email_warmup_increase_rate = 2\<rparr>"

definition select_schedule :: "schedule_table \<Rightarrow> date \<Rightarrow> schedule option" where
  "select_schedule tbl d = find (\<lambda>r. scheduled_date r = d) tbl"

definition update_schedule :: "schedule_table \<Rightarrow> date \<Rightarrow> (schedule \<Rightarrow> schedule) \<Rightarrow> schedule_table" where
  "update_schedule tbl d upd = map (\<lambda>r. if scheduled_date r = d then upd r else r) tbl"

definition insert_schedule :: "schedule_table \<Rightarrow> schedule \<Rightarrow> schedule_table" where
  "insert_schedule tbl r = tbl @ [r]"

text \<open>
  \<^verbatim>\<open>getEmailSchedule\<close>: one row by date. The store's "no rows" answer (code PGRST116) is
  the value \<open>None\<close>; any other error is thrown.
\<close>

definition getEmailSchedule :: "fault \<Rightarrow> date \<Rightarrow> schedule_table \<Rightarrow> error + schedule option" where
  "getEmailSchedule f d tbl =
     (case f of
        Some m \<Rightarrow> Inl (StoreError m)
      | None \<Rightarrow> Inr (select_schedule tbl d))"

definition createOrUpdateEmailSchedule ::
  "fault \<Rightarrow> fault \<Rightarrow> date \<Rightarrow> int \<Rightarrow> schedule_table \<Rightarrow> (error + schedule) \<times> schedule_table" where
  "createOrUpdateEmailSchedule f_read f_write d limit tbl =
     (case getEmailSchedule f_read d tbl of
        Inl e \<Rightarrow> (Inl e, tbl)
      | Inr (Some existingSchedule) \<Rightarrow>
          (case f_write of
             Some m \<Rightarrow> (Inl (StoreError m), tbl)
           | None \<Rightarrow>
               (Inr (existingSchedule\<lparr>emails_limit := limit\<rparr>),
                update_schedule tbl d (\<lambda>r. r\<lparr>emails_limit := limit\<rparr>)))
      | Inr None \<Rightarrow>
          (case f_write of
             Some m \<Rightarrow> (Inl (StoreError m), tbl)
           | None \<Rightarrow>
               (let row = \<lparr>scheduled_date = d, emails_limit = limit,
                           emails_sent = 0, is_completed = False\<rparr>
                in (Inr row, insert_schedule tbl row))))"

definition incrementEmailsSent ::
  "fault \<Rightarrow> fault \<Rightarrow> date \<Rightarrow> schedule_table \<Rightarrow> (error + schedule) \<times> schedule_table" where
  "incrementEmailsSent f_read f_write d tbl =
     (case getEmailSchedule f_read d tbl of
        Inl e \<Rightarrow> (Inl e, tbl)
      | Inr None \<Rightarrow> (Inl (NoScheduleFound d), tbl)
      | Inr (Some sched) \<Rightarrow>
          if emails_sent sched \<ge> emails_limit sched then (Inl (QuotaExceeded d), tbl)
          else
            (case f_write of
               Some m \<Rightarrow> (Inl (StoreError m), tbl)
             | None \<Rightarrow>
                 (let sent = emails_sent sched + 1;
                      completed = (emails_sent sched + 1 \<ge> emails_limit sched)
                  in (Inr (sched\<lparr>emails_sent := sent, is_completed := completed\<rparr>),
                      update_schedule tbl d
                        (\<lambda>r. r\<lparr>emails_sent := sent, is_completed := completed\<rparr>)))))"

text \<open>
  The most recent schedule:
  \<^verbatim>\<open>.order("scheduled_date", { ascending: false }).limit(1)\<close>.
\<close>

fun latest_schedule :: "schedule_table \<Rightarrow> schedule option" where
  "latest_schedule [] = None"
| "latest_schedule (r # rs) =
     (case latest_schedule rs of
        None \<Rightarrow> Some r
      | Some m \<Rightarrow> if scheduled_date r < scheduled_date m then Some m else Some r)"

text \<open>
  The loop \<^verbatim>\<open>for (let i = 0; i < days; i++)\<close> of \<^verbatim>\<open>generateEmailSchedules\<close>, over
  the day offsets still to be written. Turn \<open>i\<close> builds its own date:
  \<^verbatim>\<open>new Date()\<close> is the time of the turn, \<^verbatim>\<open>date.setDate(date.getDate() + i)\<close> moves
  its calendar date \<open>i\<close> days ahead in the local time zone of the machine, keeping the
  local time of day, and \<^verbatim>\<open>createOrUpdateEmailSchedule\<close> keys the row by
  \<^verbatim>\<open>dateString = date.toISOString().split("T")[0]\<close>, the calendar date of the result in
  UTC. That key is decided by the clock and by the rules of the time zone, not by the
  program, so the loop takes it as \<open>dateString i\<close>. As long as the offset of the zone
  from UTC is the same on all the days covered (and the run does not pass midnight in
  UTC), \<open>dateString i\<close> is \<open>i\<close> days after \<open>dateString 0\<close>; a change of the offset
  within those days (daylight-saving time) can make two turns compute the same UTC date
  or make the dates jump over one. \<open>fs i\<close> are the store's answers to the two calls of
  turn \<open>i\<close>.
\<close>

fun generate_loop ::
  "(nat \<Rightarrow> date) \<Rightarrow> (nat \<Rightarrow> fault \<times> fault) \<Rightarrow> config \<Rightarrow> nat list \<Rightarrow> int \<Rightarrow> schedule list \<Rightarrow>
   schedule_table \<Rightarrow> (error + schedule list) \<times> schedule_table" where
  "generate_loop dateString fs cfg [] currentLimit schedules tbl = (Inr schedules, tbl)"
| "generate_loop dateString fs cfg (i # rest) currentLimit schedules tbl =
     (case createOrUpdateEmailSchedule (fst (fs i)) (snd (fs i)) (dateString i) currentLimit tbl of
        (Inl e, tbl') \<Rightarrow> (Inl e, tbl')
      | (Inr s, tbl') \<Rightarrow>
          generate_loop dateString fs cfg rest (currentLimit + email_warmup_increase_rate cfg)
            (schedules @ [s]) tbl')"

definition generateEmailSchedules ::
  "fault \<Rightarrow> (nat \<Rightarrow> date) \<Rightarrow> (nat \<Rightarrow> fault \<times> fault) \<Rightarrow> config \<Rightarrow> nat \<Rightarrow> schedule_table \<Rightarrow>
   (error + schedule list) \<times> schedule_table" where
  "generateEmailSchedules f_latest dateString fs cfg days tbl =
     (case f_latest of
        Some m \<Rightarrow> (Inl (StoreError m), tbl)
      | None \<Rightarrow>
          (let currentLimit =
                 (case latest_schedule tbl of
                    None \<Rightarrow> daily_email_limit cfg
                  | Some latest \<Rightarrow> emails_limit latest + email_warmup_increase_rate cfg)
           in generate_loop dateString fs cfg [0..<days] currentLimit [] tbl))"

definition getRemainingEmailQuota ::
  "fault \<Rightarrow> fault \<Rightarrow> fault \<Rightarrow> config \<Rightarrow> date \<Rightarrow> schedule_table \<Rightarrow> (error + int) \<times> schedule_table" where
  "getRemainingEmailQuota f_read f_read2 f_write cfg today tbl =
     (case getEmailSchedule f_read today tbl of
        Inl e \<Rightarrow> (Inl e, tbl)
      | Inr None \<Rightarrow>
          (case createOrUpdateEmailSchedule f_read2 f_write today (daily_email_limit cfg) tbl of
             (Inl e, tbl') \<Rightarrow> (Inl e, tbl')
           | (Inr newSchedule, tbl') \<Rightarrow> (Inr (emails_limit newSchedule), tbl'))
      | Inr (Some sched) \<Rightarrow> (Inr (max 0 (emails_limit sched - emails_sent sched)), tbl))"

text \<open>
  A run of \<^verbatim>\<open>incrementEmailsSent(d)\<close> calls, one per entry of the list of store
  answers; it stops at the first call that throws.
\<close>

fun increment_calls ::
  "(fault \<times> fault) list \<Rightarrow> date \<Rightarrow> schedule_table \<Rightarrow> (error + unit) \<times> schedule_table" where
  "increment_calls [] d tbl = (Inr (), tbl)"
| "increment_calls (f # fs) d tbl =
     (case incrementEmailsSent (fst f) (snd f) d tbl of
        (Inl e, tbl') \<Rightarrow> (Inl e, tbl')
      | (Inr s, tbl') \<Rightarrow> increment_calls fs d tbl')"

section \<open>Content parsing (backend/api/aiContentGenerator.js)\<close>

text \<open>
  A JavaScript string is a list of code units; the model covers the code units below
  256. Among them the line terminators of the regular-expression dialect are LF and
  CR, and the white space of \<^verbatim>\<open>\s\<close> and of \<^verbatim>\<open>trim()\<close> is TAB, LF, VT, FF, CR, SPACE and
  NBSP.
\<close>

definition LF :: char where
  "LF = CHR 0x0A"

definition is_line_terminator :: "char \<Rightarrow> bool" where
  "is_line_terminator c = (c = CHR 0x0A \<or> c = CHR 0x0D)"

definition is_white_space :: "char \<Rightarrow> bool" where
  "is_white_space c =
     (c = CHR 0x09 \<or> c = CHR 0x0A \<or> c = CHR 0x0B \<or> c = CHR 0x0C \<or> c = CHR 0x0D \<or>
      c = CHR 0x20 \<or> c = CHR 0xA0)"

definition trim :: "string \<Rightarrow> string" where
  "trim s = rev (dropWhile is_white_space (rev (dropWhile is_white_space s)))"

text \<open>
  \<^verbatim>\<open>(.*?)(?:\n|$)\<close> read from a position: the lazy group grows one character at a
  time, and before each step the engine tries to finish with a line feed or the end
  of the input (there is no \<^verbatim>\<open>m\<close> flag). The dot matches no line terminator, so a CR
  makes the attempt fail. The result is the text captured and the input left after the
  line feed.
\<close>

fun rest_of_line :: "string \<Rightarrow> (string \<times> string) option" where
  "rest_of_line [] = Some ([], [])"
| "rest_of_line (c # cs) =
     (if c = CHR 0x0A then Some ([], cs)
      else if is_line_terminator c then None
      else map_option (\<lambda>(captured, rest). (c # captured, rest)) (rest_of_line cs))"

text \<open>
  \<^verbatim>\<open>\s*(.*?)(?:\n|$)\<close> read from the position after the marker: \<^verbatim>\<open>\s*\<close> is greedy,
  it first takes every white-space character (line feeds too) and gives them back one
  by one when the rest of the pattern fails.
\<close>

fun spaces_then_line :: "string \<Rightarrow> string option" where
  "spaces_then_line [] = map_option fst (rest_of_line [])"
| "spaces_then_line (c # cs) =
     (if is_white_space c then
        (case spaces_then_line cs of
           Some captured \<Rightarrow> Some captured
         | None \<Rightarrow> map_option fst (rest_of_line (c # cs)))
      else map_option fst (rest_of_line (c # cs)))"

definition starts_with_marker :: "string \<Rightarrow> bool" where
  "starts_with_marker s = (take 8 s = ''SUBJECT:'')"

text \<open>
  \<^verbatim>\<open>content.match(/SUBJECT:\s*(.*?)(?:\n|$)/)\<close>: the first position, from the left, at
  which the pattern matches; the value is capture group 1, \<open>None\<close> is \<^verbatim>\<open>null\<close>.
\<close>

fun subjectMatch :: "string \<Rightarrow> string option" where
  "subjectMatch [] = None"
| "subjectMatch (c # cs) =
     (case (if starts_with_marker (c # cs) then spaces_then_line (drop 8 (c # cs)) else None) of
        Some captured \<Rightarrow> Some captured
      | None \<Rightarrow> subjectMatch cs)"

text \<open>
  \<^verbatim>\<open>content.match(/SUBJECT:.*?(?:\n|$)([\s\S]*)/)\<close>: capture group 1 is everything
  after the line feed that ends the marker's line.
\<close>

fun bodyMatch :: "string \<Rightarrow> string option" where
  "bodyMatch [] = None"
| "bodyMatch (c # cs) =
     (case (if starts_with_marker (c # cs) then map_option snd (rest_of_line (drop 8 (c # cs)))
            else None) of
        Some rest \<Rightarrow> Some rest
      | None \<Rightarrow> bodyMatch cs)"

record parsed_content =
  subject :: string
  body :: string

definition parseGeneratedContent :: "string \<Rightarrow> parsed_content" where
  "parseGeneratedContent content =
     \<lparr>subject = (case subjectMatch content of
                    Some captured \<Rightarrow> trim captured
                  | None \<Rightarrow> ''Job Application''),
      body = (case bodyMatch content of
                 Some rest \<Rightarrow> trim rest
               | None \<Rightarrow> content)\<rparr>"

section \<open>Email verification (backend/api/emailVerification.js)\<close>

text \<open>
  What a \<^verbatim>\<open>fetch\<close> gives: a rejected promise, a response that is not \<^verbatim>\<open>ok\<close> (status
  and text), or the decoded body.
\<close>

datatype 'a http_response =
    NetworkError string
  | HttpError nat string
  | HttpOk 'a

text \<open>
  An environment variable or a nullable text column, tested with \<^verbatim>\<open>!x\<close>: unset and
  the empty string are both falsy.
\<close>

definition falsy :: "string option \<Rightarrow> bool" where
  "falsy x = (x = None \<or> x = Some [])"

text \<open>\<^verbatim>\<open>data.data\<close> of the verification service; \<open>hunter_status = None\<close> when the field is absent.\<close>

record hunter_data =
  hunter_status :: "string option"
  hunter_score :: int
  hunter_disposable :: bool
  hunter_webmail :: bool
  hunter_accept_all :: bool

record verification =
  v_email :: string
  isValid :: bool
  v_status :: "string option"
  v_score :: int
  isDisposable :: bool
  isWebmail :: bool
  isAcceptAll :: bool

definition verifyEmail :: "string option \<Rightarrow> hunter_data http_response \<Rightarrow> string \<Rightarrow> error + verification" where
  "verifyEmail hunter_api_key response email =
     (if falsy hunter_api_key then
        Inl (ConfigurationMissing ''Hunter API key is not set in the .env file'')
      else
        (case response of
           NetworkError m \<Rightarrow> Inl (ExternalServiceFailure m)
         | HttpError code statusText \<Rightarrow> Inl (ExternalServiceFailure statusText)
         | HttpOk d \<Rightarrow>
             Inr \<lparr>v_email = email,
                  isValid = (hunter_status d = Some ''valid''),
                  v_status = hunter_status d,
                  v_score = hunter_score d,
                  isDisposable = hunter_disposable d,
                  isWebmail = hunter_webmail d,
                  isAcceptAll = hunter_accept_all d\<rparr>))"

section \<open>The store's tables\<close>

text \<open>
  Rows of \<^verbatim>\<open>companies\<close> and \<^verbatim>\<open>emails\<close> (schema.sql), with the columns the program reads
  or writes; a column \<^verbatim>\<open>x\<close> of \<^verbatim>\<open>companies\<close> is the field \<open>c_x\<close>, a column \<^verbatim>\<open>x\<close> of
  \<^verbatim>\<open>emails\<close> the field \<open>e_x\<close>. Statuses are the text the columns hold. Time stamps are
  numbers (milliseconds). A table is the list of its rows in the order the store keeps
  them, which no column determines.
\<close>

record company =
  c_id :: uuid
  c_name :: string
  c_website :: "string option"
  c_contact_email :: "string option"
  c_email_verified :: bool
  c_priority :: int
  c_status :: string
  c_created_at :: int

record email =
  e_id :: uuid
  e_company_id :: "uuid option"
  e_subject :: string
  e_body :: string
  e_sent_at :: "int option"
  e_opened_at :: "int option"
  e_clicked_at :: "int option"
  e_status :: string
  e_email_provider :: string
  e_message_id :: "string option"
  e_template_used :: string

record email_template =
  t_name :: string
  t_is_active :: bool
  t_created_at :: int

record store =
  schedules :: schedule_table
  companies :: "company list"
  emails :: "email list"
  email_templates :: "email_template list"

text \<open>\<^verbatim>\<open>.update(...).eq("id", id)\<close> on \<^verbatim>\<open>emails\<close> and on \<^verbatim>\<open>companies\<close>.\<close>

definition update_emails :: "email list \<Rightarrow> uuid \<Rightarrow> (email \<Rightarrow> email) \<Rightarrow> email list" where
  "update_emails tbl i upd = map (\<lambda>e. if e_id e = i then upd e else e) tbl"

definition update_companies :: "company list \<Rightarrow> uuid option \<Rightarrow> (company \<Rightarrow> company) \<Rightarrow> company list" where
  "update_companies tbl i upd = map (\<lambda>c. if Some (c_id c) = i then upd c else c) tbl"

text \<open>\<^verbatim>\<open>.select("*").eq("message_id", m).limit(1)\<close>: the first row with that message id.\<close>

definition select_email_by_message_id :: "email list \<Rightarrow> string \<Rightarrow> email option" where
  "select_email_by_message_id tbl m = find (\<lambda>e. e_message_id e = Some m) tbl"

text \<open>
  The columns of an email row that no update of the program writes: the identifier and
  the provider's message id.
\<close>

definition email_key :: "email \<Rightarrow> uuid \<times> string option" where
  "email_key e = (e_id e, e_message_id e)"

section \<open>Webhook dispatcher (n8n email-tracking function)\<close>

text \<open>
  An event of the batch provider. \<open>sg_timestamp\<close> is \<open>None\<close> when the field is absent
  or not a number. The answers of the store during one event are the three calls the
  event can make: the lookup, the update of the email row, the update of the company.
\<close>

record sg_event =
  sg_event_type :: string
  sg_message_id :: string
  sg_timestamp :: "int option"
  sg_url :: "string option"
  sg_reason :: "string option"

record event_faults =
  f_select :: fault
  f_update_email :: fault
  f_update_company :: fault

definition no_faults :: event_faults where
  "no_faults = \<lparr>f_select = None, f_update_email = None, f_update_company = None\<rparr>"

record event_result =
  r_event :: string
  r_messageId :: string
  r_emailId :: "uuid option"
  r_status :: string
  r_reason :: "string option"
  r_url :: "string option"
  r_error :: "string option"

text \<open>
  \<^verbatim>\<open>new Date(timestamp * 1000).toISOString()\<close>: the time in milliseconds, or a
  \<^verbatim>\<open>RangeError\<close> when the date is not valid (no number, or beyond 8.64e15 ms).
\<close>

definition toISOString :: "int option \<Rightarrow> error + int" where
  "toISOString t =
     (case t of
        None \<Rightarrow> Inl (RangeError ''Invalid time value'')
      | Some secs \<Rightarrow>
          if \<bar>secs * 1000\<bar> \<le> 8640000000000000 then Inr (secs * 1000)
          else Inl (RangeError ''Invalid time value''))"

definition error_result :: "sg_event \<Rightarrow> string \<Rightarrow> event_result" where
  "error_result ev m =
     \<lparr>r_event = sg_event_type ev, r_messageId = sg_message_id ev, r_emailId = None,
      r_status = ''error'', r_reason = None, r_url = None, r_error = Some m\<rparr>"

definition not_found_result :: "sg_event \<Rightarrow> event_result" where
  "not_found_result ev =
     \<lparr>r_event = sg_event_type ev, r_messageId = sg_message_id ev, r_emailId = None,
      r_status = ''skipped'', r_reason = Some ''Email not found'', r_url = None, r_error = None\<rparr>"

definition success_result :: "sg_event \<Rightarrow> uuid \<Rightarrow> string option \<Rightarrow> string option \<Rightarrow> event_result" where
  "success_result ev i reason url =
     \<lparr>r_event = sg_event_type ev, r_messageId = sg_message_id ev, r_emailId = Some i,
      r_status = ''success'', r_reason = reason, r_url = url, r_error = None\<rparr>"

definition unsupported_result :: "sg_event \<Rightarrow> uuid \<Rightarrow> event_result" where
  "unsupported_result ev i =
     \<lparr>r_event = sg_event_type ev, r_messageId = sg_message_id ev, r_emailId = Some i,
      r_status = ''skipped'', r_reason = Some ''Unsupported event type'', r_url = None,
      r_error = None\<rparr>"

text \<open>
  One turn of the loop of \<^verbatim>\<open>processSendGridWebhook\<close>: the body of the \<^verbatim>\<open>try\<close> and its
  \<^verbatim>\<open>catch\<close>, which turns whatever was thrown into an error result.
\<close>

definition sendgrid_event :: "event_faults \<Rightarrow> sg_event \<Rightarrow> store \<Rightarrow> event_result \<times> store" where
  "sendgrid_event fs ev st =
     (case f_select fs of
        Some m \<Rightarrow> (error_result ev m, st)
      | None \<Rightarrow>
          (case select_email_by_message_id (emails st) (sg_message_id ev) of
             None \<Rightarrow> (not_found_result ev, st)
           | Some email \<Rightarrow>
               if sg_event_type ev = ''open'' then
                 (case toISOString (sg_timestamp ev) of
                    Inl e \<Rightarrow> (error_result ev (error_message e), st)
                  | Inr t \<Rightarrow>
                      (case f_update_email fs of
                         Some m \<Rightarrow> (error_result ev m, st)
                       | None \<Rightarrow>
                           (success_result ev (e_id email) None None,
                            st\<lparr>emails := update_emails (emails st) (e_id email)
                                  (\<lambda>e. e\<lparr>e_status := ''opened'', e_opened_at := Some t\<rparr>)\<rparr>)))
               else if sg_event_type ev = ''click'' then
                 (case toISOString (sg_timestamp ev) of
                    Inl e \<Rightarrow> (error_result ev (error_message e), st)
                  | Inr t \<Rightarrow>
                      (case f_update_email fs of
                         Some m \<Rightarrow> (error_result ev m, st)
                       | None \<Rightarrow>
                           (success_result ev (e_id email) None (sg_url ev),
                            st\<lparr>emails := update_emails (emails st) (e_id email)
                                  (\<lambda>e. e\<lparr>e_status := ''clicked'', e_clicked_at := Some t\<rparr>)\<rparr>)))
               else if sg_event_type ev = ''bounce'' then
                 (case f_update_email fs of
                    Some m \<Rightarrow> (error_result ev m, st)
                  | None \<Rightarrow>
                      (let st1 = st\<lparr>emails := update_emails (emails st) (e_id email)
                                        (\<lambda>e. e\<lparr>e_status := ''bounced''\<rparr>)\<rparr>
                       in (case f_update_company fs of
                             Some m \<Rightarrow> (error_result ev m, st1)
                           | None \<Rightarrow>
                               (success_result ev (e_id email) (sg_reason ev) None,
                                st1\<lparr>companies := update_companies (companies st1)
                                       (e_company_id email)
                                       (\<lambda>c. c\<lparr>c_email_verified := False\<rparr>)\<rparr>))))
               else (unsupported_result ev (e_id email), st)))"

text \<open>
  The loop \<^verbatim>\<open>for (const event of payload)\<close>; \<open>env k\<close> are the store's answers during
  the event at position \<open>k\<close> of the payload, and \<open>i\<close> is the position of the first event
  of the list.
\<close>

fun sendgrid_loop ::
  "(nat \<Rightarrow> event_faults) \<Rightarrow> nat \<Rightarrow> sg_event list \<Rightarrow> event_result list \<Rightarrow> store \<Rightarrow>
   event_result list \<times> store" where
  "sendgrid_loop env i [] results st = (results, st)"
| "sendgrid_loop env i (ev # rest) results st =
     (case sendgrid_event (env i) ev st of
        (r, st') \<Rightarrow> sendgrid_loop env (Suc i) rest (results @ [r]) st')"

text \<open>The payload of the webhook: an array of events, or anything else.\<close>

datatype sg_payload = NotAnArray | Events "sg_event list"

datatype sg_response =
    SgFailure string
  | SgProcessed nat "event_result list"

text \<open>
  \<open>SgFailure m\<close> is \<^verbatim>\<open>{ success: false, error: m }\<close>; \<open>SgProcessed n results\<close> is
  \<^verbatim>\<open>{ success: true, message: `Processed ${n} SendGrid events`, results }\<close>.
\<close>

definition processSendGridWebhook ::
  "(nat \<Rightarrow> event_faults) \<Rightarrow> sg_payload \<Rightarrow> store \<Rightarrow> sg_response \<times> store" where
  "processSendGridWebhook env payload st =
     (case payload of
        NotAnArray \<Rightarrow> (SgFailure ''Invalid SendGrid webhook payload'', st)
      | Events evs \<Rightarrow>
          (case sendgrid_loop env 0 evs [] st of
             (results, st') \<Rightarrow> (SgProcessed (length results) results, st')))"

text \<open>The single-event provider: one payload, one answer.\<close>

record mg_payload =
  mg_event :: string
  mg_message_id :: string
  mg_timestamp :: "int option"
  mg_url :: "string option"
  mg_reason :: "string option"

record mg_response =
  mg_success :: bool
  mg_error :: "string option"
  mg_r_event :: "string option"
  mg_r_messageId :: string
  mg_r_emailId :: "uuid option"
  mg_r_url :: "string option"
  mg_r_reason :: "string option"

definition mg_failure :: "mg_payload \<Rightarrow> string \<Rightarrow> mg_response" where
  "mg_failure payload m =
     \<lparr>mg_success = False, mg_error = Some m, mg_r_event = Some (mg_event payload),
      mg_r_messageId = mg_message_id payload, mg_r_emailId = None, mg_r_url = None,
      mg_r_reason = None\<rparr>"

definition mg_ok :: "mg_payload \<Rightarrow> uuid \<Rightarrow> string option \<Rightarrow> string option \<Rightarrow> mg_response" where
  "mg_ok payload i url reason =
     \<lparr>mg_success = True, mg_error = None, mg_r_event = Some (mg_event payload),
      mg_r_messageId = mg_message_id payload, mg_r_emailId = Some i, mg_r_url = url,
      mg_r_reason = reason\<rparr>"

definition processMailgunWebhook :: "event_faults \<Rightarrow> mg_payload \<Rightarrow> store \<Rightarrow> mg_response \<times> store" where
  "processMailgunWebhook fs payload st =
     (case f_select fs of
        Some m \<Rightarrow> (mg_failure payload m, st)
      | None \<Rightarrow>
          (case select_email_by_message_id (emails st) (mg_message_id payload) of
             None \<Rightarrow>
               (\<lparr>mg_success = False, mg_error = Some ''Email not found'', mg_r_event = None,
                 mg_r_messageId = mg_message_id payload, mg_r_emailId = None, mg_r_url = None,
                 mg_r_reason = None\<rparr>, st)
           | Some email \<Rightarrow>
               if mg_event payload = ''opened'' then
                 (case toISOString (mg_timestamp payload) of
                    Inl e \<Rightarrow> (mg_failure payload (error_message e), st)
                  | Inr t \<Rightarrow>
                      (case f_update_email fs of
                         Some m \<Rightarrow> (mg_failure payload m, st)
                       | None \<Rightarrow>
                           (mg_ok payload (e_id email) None None,
                            st\<lparr>emails := update_emails (emails st) (e_id email)
                                  (\<lambda>e. e\<lparr>e_status := ''opened'', e_opened_at := Some t\<rparr>)\<rparr>)))
               else if mg_event payload = ''clicked'' then
                 (case toISOString (mg_timestamp payload) of
                    Inl e \<Rightarrow> (mg_failure payload (error_message e), st)
                  | Inr t \<Rightarrow>
                      (case f_update_email fs of
                         Some m \<Rightarrow> (mg_failure payload m, st)
                       | None \<Rightarrow>
                           (mg_ok payload (e_id email) (mg_url payload) None,
                            st\<lparr>emails := update_emails (emails st) (e_id email)
                                  (\<lambda>e. e\<lparr>e_status := ''clicked'', e_clicked_at := Some t\<rparr>)\<rparr>)))
               else if mg_event payload = ''bounced'' then
                 (case f_update_email fs of
                    Some m \<Rightarrow> (mg_failure payload m, st)
                  | None \<Rightarrow>
                      (let st1 = st\<lparr>emails := update_emails (emails st) (e_id email)
                                        (\<lambda>e. e\<lparr>e_status := ''bounced''\<rparr>)\<rparr>
                       in (case f_update_company fs of
                             Some m \<Rightarrow> (mg_failure payload m, st1)
                           | None \<Rightarrow>
                               (mg_ok payload (e_id email) None (mg_reason payload),
                                st1\<lparr>companies := update_companies (companies st1)
                                       (e_company_id email)
                                       (\<lambda>c. c\<lparr>c_email_verified := False\<rparr>)\<rparr>))))
               else
                 (\<lparr>mg_success = False,
                   mg_error = Some (''Unsupported event type: '' @ mg_event payload),
                   mg_r_event = None, mg_r_messageId = mg_message_id payload,
                   mg_r_emailId = Some (e_id email), mg_r_url = None, mg_r_reason = None\<rparr>, st)))"

section \<open>Collaborators of the orchestrators\<close>

text \<open>
  What the outside world answers while one company is processed: the result of the
  address discovery (\<^verbatim>\<open>findBestEmailForPerson\<close>: thrown, \<^verbatim>\<open>null\<close>, or the address found),
  the responses of the verification, generation and delivery services, the clock, the
  identifier the store gives the new email row, and the store's answers to the writes.
\<close>

record company_env =
  env_find :: "error + string option"
  env_verify :: "hunter_data http_response"
  env_generate :: "string option http_response"
  env_send :: "string option http_response"
  env_now :: int
  env_new_email_id :: uuid
  env_create_email :: fault
  env_mark_contacted :: fault
  env_increment_read :: fault
  env_increment_write :: fault

record main_config =
  hunter_api_key :: "string option"
  gemini_api_key :: "string option"
  sendgrid_api_key :: "string option"
  sendgrid_from_email :: "string option"
  schedule_config :: config

record generated_content = parsed_content +
  raw :: string

text \<open>
  \<^verbatim>\<open>generateEmailContent\<close> (backend/api/aiContentGenerator.js). The response carries
  \<^verbatim>\<open>candidates[0].content.parts[0].text\<close>, or \<open>None\<close> when that path does not exist.
\<close>

definition generateEmailContent :: "string option \<Rightarrow> string option http_response \<Rightarrow> error + generated_content" where
  "generateEmailContent api_key response =
     (if falsy api_key then
        Inl (ConfigurationMissing ''Gemini API key is not set in the .env file'')
      else
        (case response of
           NetworkError m \<Rightarrow> Inl (ExternalServiceFailure m)
         | HttpError code statusText \<Rightarrow> Inl (ExternalServiceFailure statusText)
         | HttpOk None \<Rightarrow> Inl (TypeError ''Cannot read properties of undefined'')
         | HttpOk (Some generatedText) \<Rightarrow>
             Inr \<lparr>subject = subject (parseGeneratedContent generatedText),
                  body = body (parseGeneratedContent generatedText),
                  raw = generatedText\<rparr>))"

text \<open>
  \<^verbatim>\<open>sendEmail\<close> (backend/api/emailSender.js), reached through
  \<^verbatim>\<open>sendJobApplicationEmail\<close>; the response carries the \<^verbatim>\<open>x-message-id\<close> header. The
  value is \<^verbatim>\<open>messageId\<close>.
\<close>

definition sendEmail :: "main_config \<Rightarrow> string option http_response \<Rightarrow> error + string option" where
  "sendEmail cfg response =
     (if falsy (sendgrid_api_key cfg) \<or> falsy (sendgrid_from_email cfg) then
        Inl (ConfigurationMissing ''SendGrid API key or from email is not set in the .env file'')
      else
        (case response of
           NetworkError m \<Rightarrow> Inl (ExternalServiceFailure m)
         | HttpError code errorText \<Rightarrow> Inl (ExternalServiceFailure errorText)
         | HttpOk header \<Rightarrow> Inr (if falsy header then None else header)))"

section \<open>Company selection (backend/api/companies.js)\<close>

text \<open>
  \<^verbatim>\<open>.eq("email_verified", true).eq("status", "pending").order("priority", { ascending:
  true }).limit(limit)\<close>. The query orders by \<^verbatim>\<open>priority\<close> alone, and the store returns
  rows of equal priority in no specified order; the model takes the order in which the
  table holds them.
\<close>

definition ready_for_contact :: "company \<Rightarrow> bool" where
  "ready_for_contact c = (c_email_verified c \<and> c_status c = ''pending'')"

definition select_daily_companies :: "int \<Rightarrow> company list \<Rightarrow> company list" where
  "select_daily_companies limit tbl =
     take (nat limit) (sort_key c_priority (filter ready_for_contact tbl))"

definition getCompaniesForDailyEmails :: "fault \<Rightarrow> int \<Rightarrow> company list \<Rightarrow> error + company list" where
  "getCompaniesForDailyEmails f limit tbl =
     (case f of
        Some m \<Rightarrow> Inl (StoreError m)
      | None \<Rightarrow> Inr (select_daily_companies limit tbl))"

text \<open>\<^verbatim>\<open>markCompanyAsContacted(id)\<close>, through \<^verbatim>\<open>updateCompany\<close>.\<close>

definition markCompanyAsContacted :: "fault \<Rightarrow> uuid \<Rightarrow> company list \<Rightarrow> (error + unit) \<times> company list" where
  "markCompanyAsContacted f i tbl =
     (case f of
        Some m \<Rightarrow> (Inl (StoreError m), tbl)
      | None \<Rightarrow> (Inr (), update_companies tbl (Some i) (\<lambda>c. c\<lparr>c_status := ''contacted''\<rparr>)))"

text \<open>\<^verbatim>\<open>createEmail(email)\<close> (backend/api/emails.js): one row inserted.\<close>

definition createEmail :: "fault \<Rightarrow> email \<Rightarrow> email list \<Rightarrow> (error + email) \<times> email list" where
  "createEmail f row tbl =
     (case f of
        Some m \<Rightarrow> (Inl (StoreError m), tbl)
      | None \<Rightarrow> (Inr row, tbl @ [row]))"

definition sent_email_row :: "company_env \<Rightarrow> company \<Rightarrow> string \<Rightarrow> string \<Rightarrow> string option \<Rightarrow> string \<Rightarrow> email" where
  "sent_email_row env company subj bdy messageId template =
     \<lparr>e_id = env_new_email_id env, e_company_id = Some (c_id company), e_subject = subj,
      e_body = bdy, e_sent_at = Some (env_now env), e_opened_at = None, e_clicked_at = None,
      e_status = ''sent'', e_email_provider = ''sendgrid'', e_message_id = messageId,
      e_template_used = template\<rparr>"

section \<open>Orchestrator of the command line (index.js)\<close>

text \<open>
  How the processing of one company ends; \<^verbatim>\<open>main\<close> writes it to the console and keeps
  nothing else of it.
\<close>

datatype outcome =
    SkippedNoEmail
  | SkippedInvalid
  | Processed
  | Failed error

text \<open>
  The verification block of the loop (\<^verbatim>\<open>if (!company.email_verified) { ... }\<close>). It
  throws (\<open>Inl\<close>), leaves the loop body with \<^verbatim>\<open>continue\<close> (\<open>Inr (Inl outcome)\<close>), or goes
  on with the company, its \<^verbatim>\<open>contact_email\<close> set to a discovered address.
\<close>

definition verification_gate :: "main_config \<Rightarrow> company_env \<Rightarrow> company \<Rightarrow> error + (outcome + company)" where
  "verification_gate cfg env company =
     (if \<not> c_email_verified company then
        (case (if falsy (c_contact_email company) then
                 (case c_website company of
                    None \<Rightarrow> Inl (TypeError ''Cannot read properties of null'')
                  | Some website \<Rightarrow>
                      (case env_find env of
                         Inl e \<Rightarrow> Inl e
                       | Inr None \<Rightarrow> Inr (Inl SkippedNoEmail)
                       | Inr (Some found) \<Rightarrow> Inr (Inr (company\<lparr>c_contact_email := Some found\<rparr>))))
               else Inr (Inr company)) of
           Inl e \<Rightarrow> Inl e
         | Inr (Inl skipped) \<Rightarrow> Inr (Inl skipped)
         | Inr (Inr company') \<Rightarrow>
             (case verifyEmail (hunter_api_key cfg) (env_verify env)
                     (case c_contact_email company' of Some a \<Rightarrow> a | None \<Rightarrow> []) of
                Inl e \<Rightarrow> Inl e
              | Inr verified \<Rightarrow>
                  if \<not> isValid verified then Inr (Inl SkippedInvalid) else Inr (Inr company')))
      else Inr (Inr company))"

text \<open>
  The rest of the loop body: generate, send, record the email, mark the company,
  count the email. Each step that throws ends the body; the writes made before it stay.
\<close>

definition contact_company :: "main_config \<Rightarrow> company_env \<Rightarrow> date \<Rightarrow> company \<Rightarrow> store \<Rightarrow> (error + unit) \<times> store" where
  "contact_company cfg env today company st =
     (case generateEmailContent (gemini_api_key cfg) (env_generate env) of
        Inl e \<Rightarrow> (Inl e, st)
      | Inr emailContent \<Rightarrow>
          (case sendEmail cfg (env_send env) of
             Inl e \<Rightarrow> (Inl e, st)
           | Inr messageId \<Rightarrow>
               (case createEmail (env_create_email env)
                       (sent_email_row env company (subject emailContent) (body emailContent)
                          messageId ''default'') (emails st) of
                  (Inl e, tbl) \<Rightarrow> (Inl e, st)
                | (Inr row, tbl) \<Rightarrow>
                    (let st1 = st\<lparr>emails := tbl\<rparr> in
                     (case markCompanyAsContacted (env_mark_contacted env) (c_id company)
                             (companies st1) of
                        (Inl e, ctbl) \<Rightarrow> (Inl e, st1)
                      | (Inr u, ctbl) \<Rightarrow>
                          (let st2 = st1\<lparr>companies := ctbl\<rparr> in
                           (case incrementEmailsSent (env_increment_read env)
                                   (env_increment_write env) today (schedules st2) of
                              (Inl e, stbl) \<Rightarrow> (Inl e, st2)
                            | (Inr sched, stbl) \<Rightarrow> (Inr (), st2\<lparr>schedules := stbl\<rparr>))))))))"

text \<open>The body of the loop with its \<^verbatim>\<open>try\<close> and \<^verbatim>\<open>catch\<close>.\<close>

definition process_company :: "main_config \<Rightarrow> company_env \<Rightarrow> date \<Rightarrow> company \<Rightarrow> store \<Rightarrow> outcome \<times> store" where
  "process_company cfg env today company st =
     (case verification_gate cfg env company of
        Inl e \<Rightarrow> (Failed e, st)
      | Inr (Inl skipped) \<Rightarrow> (skipped, st)
      | Inr (Inr company') \<Rightarrow>
          (case contact_company cfg env today company' st of
             (Inl e, st') \<Rightarrow> (Failed e, st')
           | (Inr u, st') \<Rightarrow> (Processed, st')))"

text \<open>
  \<^verbatim>\<open>for (const company of companies)\<close>; \<open>console\<close> collects, for each company, its name
  and how its turn ended.
\<close>

fun main_loop ::
  "main_config \<Rightarrow> (nat \<Rightarrow> company_env) \<Rightarrow> date \<Rightarrow> nat \<Rightarrow> company list \<Rightarrow>
   (string \<times> outcome) list \<Rightarrow> store \<Rightarrow> (string \<times> outcome) list \<times> store" where
  "main_loop cfg env today i [] console st = (console, st)"
| "main_loop cfg env today i (company # rest) console st =
     (case process_company cfg (env i) today company st of
        (out, st') \<Rightarrow> main_loop cfg env today (Suc i) rest (console @ [(c_name company, out)]) st')"

text \<open>
  What a run hands back to its caller: \<^verbatim>\<open>main\<close> has no \<^verbatim>\<open>return\<close> with a value, the
  n8n workflow returns an object.
\<close>

record company_result =
  cr_company :: string
  cr_email :: "string option"
  cr_subject :: "string option"
  cr_status :: string
  cr_emailId :: "uuid option"
  cr_error :: "string option"

record workflow_response =
  w_success :: bool
  w_message :: "string option"
  w_error :: "string option"
  w_results :: "company_result list option"
  w_schedule :: "schedule option"

datatype run_return = Undefined | Returned workflow_response

record main_env =
  quota_read :: fault
  quota_read2 :: fault
  quota_write :: fault
  companies_select :: fault
  per_company :: "nat \<Rightarrow> company_env"

definition main :: "main_config \<Rightarrow> main_env \<Rightarrow> date \<Rightarrow> store \<Rightarrow> run_return \<times> (string \<times> outcome) list \<times> store" where
  "main cfg env today st =
     (case getRemainingEmailQuota (quota_read env) (quota_read2 env) (quota_write env)
             (schedule_config cfg) today (schedules st) of
        (Inl e, stbl) \<Rightarrow> (Undefined, [], st\<lparr>schedules := stbl\<rparr>)
      | (Inr remainingQuota, stbl) \<Rightarrow>
          (let st1 = st\<lparr>schedules := stbl\<rparr> in
           if remainingQuota \<le> 0 then (Undefined, [], st1)
           else
             (case getCompaniesForDailyEmails (companies_select env) remainingQuota (companies st1) of
                Inl e \<Rightarrow> (Undefined, [], st1)
              | Inr selected \<Rightarrow>
                  if selected = [] then (Undefined, [], st1)
                  else
                    (case main_loop cfg (per_company env) today 0 selected [] st1 of
                       (console, st2) \<Rightarrow> (Undefined, console, st2)))))"

section \<open>Daily workflow (n8n function)\<close>

text \<open>
  The workflow's own \<^verbatim>\<open>generateEmailContent\<close> and \<^verbatim>\<open>sendEmail\<close>: the request helper
  throws unless the service answers, there is no test of the credentials, and the text
  is parsed by the same two regular expressions.
\<close>

definition workflow_generate :: "string option http_response \<Rightarrow> error + generated_content" where
  "workflow_generate response =
     (case response of
        NetworkError m \<Rightarrow> Inl (ExternalServiceFailure m)
      | HttpError code statusText \<Rightarrow> Inl (ExternalServiceFailure statusText)
      | HttpOk None \<Rightarrow> Inl (TypeError ''Cannot read properties of undefined'')
      | HttpOk (Some generatedText) \<Rightarrow>
          Inr \<lparr>subject = subject (parseGeneratedContent generatedText),
               body = body (parseGeneratedContent generatedText),
               raw = generatedText\<rparr>)"

definition workflow_send :: "string option http_response \<Rightarrow> error + string option" where
  "workflow_send response =
     (case response of
        NetworkError m \<Rightarrow> Inl (ExternalServiceFailure m)
      | HttpError code errorText \<Rightarrow> Inl (ExternalServiceFailure errorText)
      | HttpOk header \<Rightarrow> Inr (if falsy header then None else header))"

text \<open>
  \<^verbatim>\<open>.eq("is_active", true).order("created_at", { ascending: false }).limit(1)\<close> on
  \<^verbatim>\<open>email_templates\<close>.
\<close>

fun latest_active_template :: "email_template list \<Rightarrow> email_template option" where
  "latest_active_template [] = None"
| "latest_active_template (t # ts) =
     (case latest_active_template ts of
        None \<Rightarrow> if t_is_active t then Some t else None
      | Some m \<Rightarrow> if t_is_active t \<and> t_created_at m \<le> t_created_at t then Some t else Some m)"

definition sent_entry :: "company \<Rightarrow> string \<Rightarrow> uuid \<Rightarrow> company_result" where
  "sent_entry company subj i =
     \<lparr>cr_company = c_name company, cr_email = c_contact_email company, cr_subject = Some subj,
      cr_status = ''sent'', cr_emailId = Some i, cr_error = None\<rparr>"

definition error_entry :: "company \<Rightarrow> error \<Rightarrow> company_result" where
  "error_entry company e =
     \<lparr>cr_company = c_name company, cr_email = c_contact_email company, cr_subject = None,
      cr_status = ''error'', cr_emailId = None, cr_error = Some (error_message e)\<rparr>"

text \<open>
  Steps 4.1 to 4.5 for one company, the body of the \<^verbatim>\<open>try\<close>. \<open>sched\<close> is the schedule
  object the workflow holds in memory; it changes only after the store has taken the
  new count.
\<close>

definition workflow_company ::
  "company_env \<Rightarrow> string \<Rightarrow> company \<Rightarrow> schedule \<Rightarrow> store \<Rightarrow>
   (error + company_result \<times> schedule) \<times> store" where
  "workflow_company env template company sched st =
     (case workflow_generate (env_generate env) of
        Inl e \<Rightarrow> (Inl e, st)
      | Inr generatedContent \<Rightarrow>
          (case workflow_send (env_send env) of
             Inl e \<Rightarrow> (Inl e, st)
           | Inr messageId \<Rightarrow>
               (case createEmail (env_create_email env)
                       (sent_email_row env company (subject generatedContent)
                          (body generatedContent) messageId template) (emails st) of
                  (Inl e, tbl) \<Rightarrow> (Inl e, st)
                | (Inr emailRecord, tbl) \<Rightarrow>
                    (let st1 = st\<lparr>emails := tbl\<rparr> in
                     (case env_mark_contacted env of
                        Some m \<Rightarrow> (Inl (StoreError m), st1)
                      | None \<Rightarrow>
                          (let st2 = st1\<lparr>companies := update_companies (companies st1)
                                             (Some (c_id company))
                                             (\<lambda>c. c\<lparr>c_status := ''contacted''\<rparr>)\<rparr> in
                           (case env_increment_write env of
                              Some m \<Rightarrow> (Inl (StoreError m), st2)
                            | None \<Rightarrow>
                                (let sent = emails_sent sched + 1;
                                     completed = (emails_sent sched + 1 \<ge> emails_limit sched)
                                 in (Inr (sent_entry company (subject generatedContent)
                                            (e_id emailRecord),
                                          sched\<lparr>emails_sent := sent, is_completed := completed\<rparr>),
                                     st2\<lparr>schedules := update_schedule (schedules st2)
                                            (scheduled_date sched)
                                            (\<lambda>r. r\<lparr>emails_sent := sent,
                                                    is_completed := completed\<rparr>)\<rparr>)))))))))"

text \<open>
  Step 4, \<^verbatim>\<open>for (const company of companies)\<close>: a company that went through adds a
  "sent" entry and ends the loop when the schedule is completed; one that threw adds an
  "error" entry.
\<close>

fun workflow_loop ::
  "(nat \<Rightarrow> company_env) \<Rightarrow> string \<Rightarrow> nat \<Rightarrow> company list \<Rightarrow> company_result list \<Rightarrow>
   schedule \<Rightarrow> store \<Rightarrow> company_result list \<times> schedule \<times> store" where
  "workflow_loop env template i [] results sched st = (results, sched, st)"
| "workflow_loop env template i (company # rest) results sched st =
     (case workflow_company (env i) template company sched st of
        (Inl e, st') \<Rightarrow>
          workflow_loop env template (Suc i) rest (results @ [error_entry company e]) sched st'
      | (Inr (entry, sched'), st') \<Rightarrow>
          if is_completed sched' then (results @ [entry], sched', st')
          else workflow_loop env template (Suc i) rest (results @ [entry]) sched' st')"

record workflow_env =
  wf_schedule_select :: fault
  wf_schedule_insert :: fault
  wf_companies_select :: fault
  wf_templates_select :: fault
  wf_per_company :: "nat \<Rightarrow> company_env"

definition workflow_failure :: "string \<Rightarrow> workflow_response" where
  "workflow_failure m =
     \<lparr>w_success = False, w_message = None, w_error = Some m, w_results = None,
      w_schedule = None\<rparr>"

text \<open>
  Steps 2 to 4 and the final \<^verbatim>\<open>return\<close>, once the schedule of the day is known. The
  message of the last \<^verbatim>\<open>return\<close> also carries the number of results.
\<close>

definition execute_with_schedule :: "workflow_env \<Rightarrow> schedule \<Rightarrow> store \<Rightarrow> run_return \<times> store" where
  "execute_with_schedule env sched st =
     (if is_completed sched \<or> emails_sent sched \<ge> emails_limit sched then
        (Returned \<lparr>w_success = True, w_message = Some ''Email limit reached for today'',
                   w_error = None, w_results = None, w_schedule = Some sched\<rparr>, st)
      else
        (let remainingQuota = emails_limit sched - emails_sent sched in
         (case wf_companies_select env of
            Some m \<Rightarrow> (Returned (workflow_failure ''Failed to get companies''), st)
          | None \<Rightarrow>
              (let selected = select_daily_companies remainingQuota (companies st) in
               if selected = [] then
                 (Returned \<lparr>w_success = True, w_message = Some ''No companies to contact today'',
                            w_error = None, w_results = None, w_schedule = None\<rparr>, st)
               else
                 (case wf_templates_select env of
                    Some m \<Rightarrow> (Returned (workflow_failure ''Failed to get email template''), st)
                  | None \<Rightarrow>
                      (let template =
                             (case latest_active_template (email_templates st) of
                                None \<Rightarrow> ''Default Template''
                              | Some t \<Rightarrow> t_name t)
                       in (case workflow_loop (wf_per_company env) template 0 selected [] sched st of
                             (results, sched', st') \<Rightarrow>
                               (Returned \<lparr>w_success = True, w_message = Some ''Processed companies'',
                                          w_error = None, w_results = Some results,
                                          w_schedule = Some sched'\<rparr>, st'))))))))"

text \<open>Step 1: the schedule of the day, created with the limit 5 when there is none.\<close>

definition execute :: "workflow_env \<Rightarrow> date \<Rightarrow> store \<Rightarrow> run_return \<times> store" where
  "execute env today st =
     (case wf_schedule_select env of
        Some m \<Rightarrow> (Returned (workflow_failure ''Failed to get email schedule''), st)
      | None \<Rightarrow>
          (case select_schedule (schedules st) today of
             None \<Rightarrow>
               (case wf_schedule_insert env of
                  Some m \<Rightarrow> (Returned (workflow_failure ''Failed to get email schedule''), st)
                | None \<Rightarrow>
                    (let newSchedule = \<lparr>scheduled_date = today, emails_limit = 5,
                                        emails_sent = 0, is_completed = False\<rparr>
                     in execute_with_schedule env newSchedule
                          (st\<lparr>schedules := insert_schedule (schedules st) newSchedule\<rparr>)))
           | Some data \<Rightarrow> execute_with_schedule env data st))"

section \<open>Example data\<close>

text \<open>Rows, events and store answers on which the theorems below are evaluated.\<close>

definition ex_email :: "uuid \<Rightarrow> uuid \<Rightarrow> string \<Rightarrow> email" where
  "ex_email i c m =
     \<lparr>e_id = i, e_company_id = Some c, e_subject = ''Hello'', e_body = ''Body'',
      e_sent_at = Some 0, e_opened_at = None, e_clicked_at = None, e_status = ''sent'',
      e_email_provider = ''sendgrid'', e_message_id = Some m, e_template_used = ''default''\<rparr>"

definition ex_company :: "uuid \<Rightarrow> string \<Rightarrow> int \<Rightarrow> int \<Rightarrow> bool \<Rightarrow> string \<Rightarrow> company" where
  "ex_company i n p t v s =
     \<lparr>c_id = i, c_name = n, c_website = Some ''https://example.com'',
      c_contact_email = Some ''hr@example.com'', c_email_verified = v, c_priority = p,
      c_status = s, c_created_at = t\<rparr>"

text \<open>
  Two runs of \<^verbatim>\<open>generateEmailSchedules(3)\<close> on a machine whose time zone is
  \<^verbatim>\<open>America/New_York\<close>, both started at 19:30 local time; the day numbers count from
  the UTC date of the start.

  The first starts on 31 October 2026, 23:30 UTC. Daylight-saving time ends on
  1 November, so 19:30 on 1 November is 00:30 UTC on 2 November: the three keys are
  2026-10-31, 2026-11-02 and 2026-11-03.

  The second starts on 7 March 2026, which is 00:30 UTC on 8 March. Daylight-saving
  time starts on 8 March, so 19:30 on 8 March is 23:30 UTC on 8 March: the three keys
  are 2026-03-08, 2026-03-08 and 2026-03-09.
\<close>

definition ex_autumn_dates :: "nat \<Rightarrow> date" where
  "ex_autumn_dates i = (if i = 0 then 0 else int i + 1)"

definition ex_spring_dates :: "nat \<Rightarrow> date" where
  "ex_spring_dates i = (if i = 0 then 0 else int i - 1)"

definition ex_event :: "string \<Rightarrow> string \<Rightarrow> sg_event" where
  "ex_event t m =
     \<lparr>sg_event_type = t, sg_message_id = m, sg_timestamp = Some 100, sg_url = None,
      sg_reason = None\<rparr>"

definition ex_webhook_store :: store where
  "ex_webhook_store =
     \<lparr>schedules = [],
      companies = [ex_company 10 ''Acme'' 1 1 True ''contacted'',
                   ex_company 30 ''Bolt'' 2 2 True ''contacted''],
      emails = [ex_email 1 10 ''A'', ex_email 3 30 ''C''],
      email_templates = []\<rparr>"

definition ex_webhook_env :: "nat \<Rightarrow> event_faults" where
  "ex_webhook_env i =
     (if i = 2 then \<lparr>f_select = None, f_update_email = Some ''write failed'',
                      f_update_company = None\<rparr>
      else no_faults)"

definition ex_config :: main_config where
  "ex_config =
     \<lparr>hunter_api_key = Some ''h'', gemini_api_key = Some ''g'', sendgrid_api_key = Some ''s'',
      sendgrid_from_email = Some ''me@example.com'', schedule_config = default_config\<rparr>"

definition ex_hunter :: "string \<Rightarrow> hunter_data" where
  "ex_hunter s =
     \<lparr>hunter_status = Some s, hunter_score = 50, hunter_disposable = False,
      hunter_webmail = False, hunter_accept_all = False\<rparr>"

definition ex_env_ok :: company_env where
  "ex_env_ok =
     \<lparr>env_find = Inr None, env_verify = HttpOk (ex_hunter ''valid''),
      env_generate = HttpOk (Some (''SUBJECT: Hi'' @ [LF] @ ''Body'')),
      env_send = HttpOk (Some ''m1''), env_now = 0, env_new_email_id = 100,
      env_create_email = None, env_mark_contacted = None, env_increment_read = None,
      env_increment_write = None\<rparr>"

definition ex_orchestrator_env :: "nat \<Rightarrow> company_env" where
  "ex_orchestrator_env i =
     (if i = 0 then ex_env_ok\<lparr>env_send := HttpError 500 ''down''\<rparr> else ex_env_ok)"

text \<open>
  A day on which every company's turn goes through, while the verification service, if
  asked, would classify every address as \<^verbatim>\<open>accept_all\<close>.
\<close>

definition ex_accept_all_env :: "nat \<Rightarrow> company_env" where
  "ex_accept_all_env i =
     ex_env_ok\<lparr>env_verify := HttpOk (ex_hunter ''accept_all''), env_new_email_id := 100 + i\<rparr>"

definition ex_orchestrator_store :: store where
  "ex_orchestrator_store =
     \<lparr>schedules = [\<lparr>scheduled_date = 0, emails_limit = 5, emails_sent = 3, is_completed = False\<rparr>],
      companies = [ex_company 1 ''A'' 3 1 True ''pending'',
                   ex_company 2 ''B'' 1 2 True ''pending'',
                   ex_company 3 ''C'' 2 3 True ''pending'',
                   ex_company 4 ''D'' 1 4 True ''pending'',
                   ex_company 5 ''E'' 3 5 True ''pending'',
                   ex_company 6 ''F'' 1 6 True ''contacted''],
      emails = [],
      email_templates = []\<rparr>"

definition ex_main_env :: main_env where
  "ex_main_env =
     \<lparr>quota_read = None, quota_read2 = None, quota_write = None, companies_select = None,
      per_company = ex_orchestrator_env\<rparr>"

definition ex_workflow_env :: workflow_env where
  "ex_workflow_env =
     \<lparr>wf_schedule_select = None, wf_schedule_insert = None, wf_companies_select = None,
      wf_templates_select = None, wf_per_company = ex_orchestrator_env\<rparr>"


section \<open>Properties of the schedule tracker\<close>

lemma select_update:
  "(\<And>r. scheduled_date r = d \<Longrightarrow> scheduled_date (upd r) = d) \<Longrightarrow>
   select_schedule (update_schedule tbl d upd) d' =
     (if d' = d then map_option upd (select_schedule tbl d) else select_schedule tbl d')"
  unfolding select_schedule_def update_schedule_def
  by (induction tbl) (auto split: if_splits)

lemma length_update_schedule: "length (update_schedule tbl d upd) = length tbl"
  by (simp add: update_schedule_def)

lemma select_Some_date: "select_schedule tbl d = Some r \<Longrightarrow> scheduled_date r = d"
  unfolding select_schedule_def by (induction tbl) (auto split: if_splits)

lemma select_insert_same:
  "select_schedule tbl d = None \<Longrightarrow> scheduled_date r = d \<Longrightarrow>
   select_schedule (insert_schedule tbl r) d = Some r"
  unfolding select_schedule_def insert_schedule_def
  by (induction tbl) (auto split: if_splits)

lemma select_insert_other:
  "scheduled_date r \<noteq> d' \<Longrightarrow>
   select_schedule (insert_schedule tbl r) d' = select_schedule tbl d'"
  unfolding select_schedule_def insert_schedule_def
  by (induction tbl) (auto split: if_splits)

lemma createOrUpdate_nofault:
  "createOrUpdateEmailSchedule None None d limit tbl =
     (case select_schedule tbl d of
        None \<Rightarrow> (Inr \<lparr>scheduled_date = d, emails_limit = limit, emails_sent = 0, is_completed = False\<rparr>,
                  insert_schedule tbl \<lparr>scheduled_date = d, emails_limit = limit, emails_sent = 0, is_completed = False\<rparr>)
      | Some r \<Rightarrow> (Inr (r\<lparr>emails_limit := limit\<rparr>), update_schedule tbl d (\<lambda>r. r\<lparr>emails_limit := limit\<rparr>)))"
  by (simp add: createOrUpdateEmailSchedule_def getEmailSchedule_def Let_def split: option.splits)


text \<open>
  Claim C7. \<^verbatim>\<open>createOrUpdateEmailSchedule(date, limit)\<close>, when the store answers both
  calls: if no row exists for the date, a row is inserted with \<open>emails_sent = 0\<close>,
  \<open>is_completed = false\<close> and the given limit; if a row exists, it is the same row
  with \<open>emails_limit\<close> overwritten, so \<open>emails_sent\<close> and \<open>is_completed\<close> keep their
  values and no row is added. The rows of all other dates are as they were.
\<close>

theorem create_or_update_schedule_frame:
  assumes "createOrUpdateEmailSchedule None None d limit tbl = (res, tbl')"
  shows "(select_schedule tbl d = None \<longrightarrow>
            res = Inr \<lparr>scheduled_date = d, emails_limit = limit, emails_sent = 0, is_completed = False\<rparr> \<and>
            select_schedule tbl' d =
              Some \<lparr>scheduled_date = d, emails_limit = limit, emails_sent = 0, is_completed = False\<rparr>) \<and>
         (\<forall>r. select_schedule tbl d = Some r \<longrightarrow>
            res = Inr (r\<lparr>emails_limit := limit\<rparr>) \<and>
            select_schedule tbl' d = Some (r\<lparr>emails_limit := limit\<rparr>) \<and>
            length tbl' = length tbl) \<and>
         (\<forall>d'. d' \<noteq> d \<longrightarrow> select_schedule tbl' d' = select_schedule tbl d')"
proof (cases "select_schedule tbl d")
  case None
  with assms show ?thesis
    by (auto simp: createOrUpdate_nofault select_insert_same select_insert_other)
next
  case (Some r)
  then have "scheduled_date r = d" by (rule select_Some_date)
  with Some assms show ?thesis
    by (auto simp: createOrUpdate_nofault select_update length_update_schedule)
qed

theorem create_or_update_schedule_frame_witness:
  "createOrUpdateEmailSchedule None None 7 9
     [\<lparr>scheduled_date = 7, emails_limit = 5, emails_sent = 3, is_completed = False\<rparr>] =
     (Inr \<lparr>scheduled_date = 7, emails_limit = 9, emails_sent = 3, is_completed = False\<rparr>,
      [\<lparr>scheduled_date = 7, emails_limit = 9, emails_sent = 3, is_completed = False\<rparr>]) \<and>
   select_schedule [\<lparr>scheduled_date = 7, emails_limit = 9, emails_sent = 3, is_completed = False\<rparr>] 7 =
     Some \<lparr>scheduled_date = 7, emails_limit = 9, emails_sent = 3, is_completed = False\<rparr> \<and>
   createOrUpdateEmailSchedule None None 8 9
     [\<lparr>scheduled_date = 7, emails_limit = 5, emails_sent = 3, is_completed = False\<rparr>] =
     (Inr \<lparr>scheduled_date = 8, emails_limit = 9, emails_sent = 0, is_completed = False\<rparr>,
      [\<lparr>scheduled_date = 7, emails_limit = 5, emails_sent = 3, is_completed = False\<rparr>,
       \<lparr>scheduled_date = 8, emails_limit = 9, emails_sent = 0, is_completed = False\<rparr>])"
proof -
  let ?r = "\<lparr>scheduled_date = 7, emails_limit = 5, emails_sent = 3, is_completed = False\<rparr>"
  let ?n = "\<lparr>scheduled_date = 8, emails_limit = 9, emails_sent = 0, is_completed = False\<rparr>"
  have run1: "createOrUpdateEmailSchedule None None 7 9 [?r] = (Inr (?r\<lparr>emails_limit := 9\<rparr>), [?r\<lparr>emails_limit := 9\<rparr>])"
    by (simp add: createOrUpdateEmailSchedule_def getEmailSchedule_def select_schedule_def update_schedule_def)
  have run2: "createOrUpdateEmailSchedule None None 8 9 [?r] = (Inr ?n, [?r, ?n])"
    by (simp add: createOrUpdateEmailSchedule_def getEmailSchedule_def select_schedule_def insert_schedule_def Let_def)
  have sel: "select_schedule [?r] 7 = Some ?r" by (simp add: select_schedule_def)
  from create_or_update_schedule_frame [OF run1] sel run1 run2 show ?thesis by simp
qed

lemma increment_select_None:
  "select_schedule tbl d = None \<Longrightarrow>
   incrementEmailsSent f_read f_write d tbl =
     (case f_read of Some m \<Rightarrow> (Inl (StoreError m), tbl) | None \<Rightarrow> (Inl (NoScheduleFound d), tbl))"
  by (simp add: incrementEmailsSent_def getEmailSchedule_def split: option.splits)

text \<open>
  Claim C9. \<^verbatim>\<open>incrementEmailsSent(date)\<close> on a date with no schedule row: when the read
  goes through, it throws "No email schedule found"; whatever the store answers, it
  throws and the table is left as it was, so no row is created. On the same table
  \<^verbatim>\<open>getRemainingEmailQuota\<close> does create the day's row, with the default limit.
\<close>

theorem increment_sent_never_creates:
  assumes "select_schedule tbl d = None"
  shows "incrementEmailsSent None f_write d tbl = (Inl (NoScheduleFound d), tbl) \<and>
         isl (fst (incrementEmailsSent f_read f_write d tbl)) \<and>
         snd (incrementEmailsSent f_read f_write d tbl) = tbl \<and>
         getRemainingEmailQuota None None None cfg d tbl =
           (Inr (daily_email_limit cfg),
            tbl @ [\<lparr>scheduled_date = d, emails_limit = daily_email_limit cfg,
                     emails_sent = 0, is_completed = False\<rparr>])"
  using assms
  by (simp add: increment_select_None getRemainingEmailQuota_def createOrUpdateEmailSchedule_def
      getEmailSchedule_def insert_schedule_def Let_def split: option.splits)

theorem increment_sent_never_creates_witness:
  "incrementEmailsSent None None 3 [] = (Inl (NoScheduleFound 3), []) \<and>
   getRemainingEmailQuota None None None default_config 3 [] =
     (Inr 5, [\<lparr>scheduled_date = 3, emails_limit = 5, emails_sent = 0, is_completed = False\<rparr>])"
proof -
  have "select_schedule [] (3::int) = None" by (simp add: select_schedule_def)
  from increment_sent_never_creates [OF this, where f_write = None and f_read = None and cfg = default_config]
  show ?thesis by (simp add: default_config_def)
qed

lemma increment_step:
  assumes "incrementEmailsSent fr fw d tbl = (Inr s, tbl')"
  shows "\<exists>r. select_schedule tbl d = Some r \<and> emails_sent r < emails_limit r \<and>
             s = r\<lparr>emails_sent := emails_sent r + 1, is_completed := (emails_limit r \<le> emails_sent r + 1)\<rparr> \<and>
             select_schedule tbl' d = Some s"
  using assms
  by (auto simp: incrementEmailsSent_def getEmailSchedule_def Let_def select_update
      split: option.splits if_splits)

lemma increment_at_limit:
  "select_schedule tbl d = Some r \<Longrightarrow> emails_limit r \<le> emails_sent r \<Longrightarrow>
   incrementEmailsSent None fw d tbl = (Inl (QuotaExceeded d), tbl)"
  by (simp add: incrementEmailsSent_def getEmailSchedule_def)

lemma increment_calls_sent:
  "increment_calls fs d tbl = (Inr (), tbl') \<Longrightarrow> select_schedule tbl d = Some r0 \<Longrightarrow>
   \<exists>r. select_schedule tbl' d = Some r \<and> emails_sent r = emails_sent r0 + int (length fs) \<and>
       emails_limit r = emails_limit r0 \<and> (fs \<noteq> [] \<longrightarrow> emails_sent r \<le> emails_limit r)"
proof (induction fs arbitrary: tbl r0)
  case Nil
  then show ?case by simp
next
  case (Cons f fs)
  from Cons.prems(1) obtain s tbl1 where
    step: "incrementEmailsSent (fst f) (snd f) d tbl = (Inr s, tbl1)" and
    rest: "increment_calls fs d tbl1 = (Inr (), tbl')"
    by (auto split: prod.splits sum.splits)
  from increment_step [OF step] Cons.prems(2) have
    s: "select_schedule tbl1 d = Some s" "emails_sent s = emails_sent r0 + 1"
       "emails_limit s = emails_limit r0" "emails_sent s \<le> emails_limit s"
    by auto
  from Cons.IH [OF rest s(1)] obtain r where
    r: "select_schedule tbl' d = Some r" "emails_sent r = emails_sent s + int (length fs)"
       "emails_limit r = emails_limit s" "fs \<noteq> [] \<longrightarrow> emails_sent r \<le> emails_limit r"
    by blast
  show ?case
  proof (cases "fs = []")
    case True
    with r s show ?thesis by auto
  next
    case False
    with r s show ?thesis by auto
  qed
qed

lemma createOrUpdate_nofault_row:
  "\<exists>s tbl'. createOrUpdateEmailSchedule None None d limit tbl = (Inr s, tbl') \<and>
      scheduled_date s = d \<and> emails_limit s = limit \<and>
      select_schedule tbl' d = Some s \<and>
      (\<forall>d'. d' \<noteq> d \<longrightarrow> select_schedule tbl' d' = select_schedule tbl d')"
proof (cases "select_schedule tbl d")
  case None
  then show ?thesis
    by (simp add: createOrUpdate_nofault select_insert_same select_insert_other)
next
  case (Some r)
  then have "scheduled_date r = d" by (rule select_Some_date)
  with Some show ?thesis
    by (simp add: createOrUpdate_nofault select_update)
qed

lemma generate_loop_nofault:
  assumes "\<forall>i\<in>set idxs. fs i = (None, None)"
  shows "\<exists>rows tbl'. generate_loop dateString fs cfg idxs cur acc tbl = (Inr (acc @ rows), tbl') \<and>
           length rows = length idxs \<and>
           (\<forall>j<length idxs.
              scheduled_date (rows ! j) = dateString (idxs ! j) \<and>
              emails_limit (rows ! j) = cur + int j * email_warmup_increase_rate cfg) \<and>
           (distinct (map dateString idxs) \<longrightarrow>
              (\<forall>j<length idxs. select_schedule tbl' (dateString (idxs ! j)) = Some (rows ! j))) \<and>
           (\<forall>d'. d' \<notin> dateString ` set idxs \<longrightarrow>
              select_schedule tbl' d' = select_schedule tbl d')"
  using assms
proof (induction idxs arbitrary: cur acc tbl)
  case Nil
  then show ?case by simp
next
  case (Cons i rest)
  let ?rate = "email_warmup_increase_rate cfg"
  from Cons.prems have fi: "fst (fs i) = None" "snd (fs i) = None" by simp_all
  obtain s tbl1 where
    step: "createOrUpdateEmailSchedule None None (dateString i) cur tbl = (Inr s, tbl1)" and
    s: "scheduled_date s = dateString i" "emails_limit s = cur"
       "select_schedule tbl1 (dateString i) = Some s" and
    frame1: "\<forall>d'. d' \<noteq> dateString i \<longrightarrow> select_schedule tbl1 d' = select_schedule tbl d'"
    using createOrUpdate_nofault_row [of "dateString i" cur tbl] by blast
  from Cons.prems have rest_ok: "\<forall>k\<in>set rest. fs k = (None, None)" by simp
  from Cons.IH [OF rest_ok, of "cur + ?rate" "acc @ [s]" tbl1] obtain rows tbl' where
    run: "generate_loop dateString fs cfg rest (cur + ?rate) (acc @ [s]) tbl1 =
            (Inr ((acc @ [s]) @ rows), tbl')" and
    len: "length rows = length rest" and
    rows: "\<forall>j<length rest.
              scheduled_date (rows ! j) = dateString (rest ! j) \<and>
              emails_limit (rows ! j) = (cur + ?rate) + int j * ?rate" and
    stored: "distinct (map dateString rest) \<longrightarrow>
              (\<forall>j<length rest. select_schedule tbl' (dateString (rest ! j)) = Some (rows ! j))" and
    frame2: "\<forall>d'. d' \<notin> dateString ` set rest \<longrightarrow>
              select_schedule tbl' d' = select_schedule tbl1 d'"
    by blast
  have whole: "generate_loop dateString fs cfg (i # rest) cur acc tbl = (Inr (acc @ (s # rows)), tbl')"
    using step run fi by simp
  have each: "scheduled_date ((s # rows) ! j) = dateString ((i # rest) ! j) \<and>
              emails_limit ((s # rows) ! j) = cur + int j * ?rate"
    if "j < length (i # rest)" for j
  proof (cases j)
    case 0
    with s show ?thesis by simp
  next
    case (Suc j')
    with that have "j' < length rest" by simp
    with rows Suc show ?thesis by (simp add: algebra_simps)
  qed
  have kept: "select_schedule tbl' (dateString ((i # rest) ! j)) = Some ((s # rows) ! j)"
    if keys: "distinct (map dateString (i # rest))" and j: "j < length (i # rest)" for j
  proof (cases j)
    case 0
    from keys have "dateString i \<notin> dateString ` set rest" by simp
    with frame2 s(3) have "select_schedule tbl' (dateString i) = Some s" by simp
    with 0 show ?thesis by simp
  next
    case (Suc j')
    with j have "j' < length rest" by simp
    moreover from keys have "distinct (map dateString rest)" by simp
    ultimately show ?thesis using stored Suc by simp
  qed
  have frame: "select_schedule tbl' d' = select_schedule tbl d'"
    if "d' \<notin> dateString ` set (i # rest)" for d'
    using that frame1 frame2 by simp
  from whole len each kept frame show ?case
    by (intro exI [of _ "s # rows"] exI [of _ tbl']) simp
qed

text \<open>
  A run of \<^verbatim>\<open>generateEmailSchedules(n)\<close> in which the store answers every call returns
  \<open>n\<close> schedules, the one of turn \<open>k\<close> with the date key of that turn. When the most
  recent schedule has limit \<open>L\<close>, the \<open>k\<close>-th of them (\<open>k = 1..n\<close>) has limit
  \<open>L + k * increment\<close>; when the table holds no schedule, the one of turn \<open>k\<close>
  (\<open>k = 0..n-1\<close>) has limit \<open>default + k * increment\<close>. When the date keys of the turns
  are the consecutive days \<open>today, today + 1, ...\<close>, each returned schedule is the row
  the table holds for its day afterwards.
\<close>

theorem generate_schedules_limits:
  assumes "\<forall>i<n. fs i = (None, None)"
    and "generateEmailSchedules None dateString fs cfg n tbl = (res, tbl')"
  shows "\<exists>scheds. res = Inr scheds \<and> length scheds = n \<and>
           (\<forall>k<n. scheduled_date (scheds ! k) = dateString k) \<and>
           (\<forall>latest. latest_schedule tbl = Some latest \<longrightarrow>
              (\<forall>k. 1 \<le> k \<and> k \<le> n \<longrightarrow>
                 emails_limit (scheds ! (k - 1)) =
                   emails_limit latest + int k * email_warmup_increase_rate cfg)) \<and>
           (latest_schedule tbl = None \<longrightarrow>
              (\<forall>k<n.
                 emails_limit (scheds ! k) =
                   daily_email_limit cfg + int k * email_warmup_increase_rate cfg)) \<and>
           ((\<forall>i<n. dateString i = today + int i) \<longrightarrow>
              (\<forall>k<n. select_schedule tbl' (today + int k) = Some (scheds ! k)))"
proof -
  let ?rate = "email_warmup_increase_rate cfg"
  define cur where "cur =
    (case latest_schedule tbl of None \<Rightarrow> daily_email_limit cfg
     | Some latest \<Rightarrow> emails_limit latest + ?rate)"
  have ok: "\<forall>i\<in>set [0..<n]. fs i = (None, None)" using assms(1) by simp
  from generate_loop_nofault [OF ok, of dateString cfg cur "[]" tbl] obtain rows tbl1 where
    run: "generate_loop dateString fs cfg [0..<n] cur [] tbl = (Inr rows, tbl1)" and
    len: "length rows = n" and
    rows: "\<forall>j<n. scheduled_date (rows ! j) = dateString j \<and>
                 emails_limit (rows ! j) = cur + int j * ?rate" and
    stored: "distinct (map dateString [0..<n]) \<longrightarrow>
               (\<forall>j<n. select_schedule tbl1 (dateString j) = Some (rows ! j))"
    by auto
  from assms(2) run have res: "res = Inr rows" "tbl' = tbl1"
    by (simp_all add: generateEmailSchedules_def cur_def)
  have with_latest: "emails_limit (rows ! (k - 1)) = emails_limit latest + int k * ?rate"
    if "latest_schedule tbl = Some latest" "1 \<le> k \<and> k \<le> n" for latest k
  proof -
    from that(2) have "k - 1 < n" by arith
    with rows have "emails_limit (rows ! (k - 1)) = cur + int (k - 1) * ?rate" by simp
    moreover from that(2) have "int (k - 1) = int k - 1" by arith
    ultimately show ?thesis using that(1) by (simp add: cur_def algebra_simps)
  qed
  have without: "emails_limit (rows ! k) = daily_email_limit cfg + int k * ?rate"
    if "latest_schedule tbl = None" "k < n" for k
    using rows that by (simp add: cur_def)
  have consecutive: "select_schedule tbl1 (today + int k) = Some (rows ! k)"
    if days: "\<forall>i<n. dateString i = today + int i" and k: "k < n" for k
  proof -
    from days have same: "map dateString [0..<n] = map (\<lambda>i. today + int i) [0..<n]" by simp
    have "distinct (map (\<lambda>i. today + int i) [0..<n])"
      by (simp add: distinct_map inj_on_def)
    then have "distinct (map dateString [0..<n])" by (simp only: same)
    with stored k have "select_schedule tbl1 (dateString k) = Some (rows ! k)" by simp
    with days k show ?thesis by simp
  qed
  from res len rows with_latest without consecutive show ?thesis by auto
qed

lemma generate_schedules_limits_example:
  "generateEmailSchedules None (\<lambda>i. 10 + int i) (\<lambda>i. (None, None)) default_config 2
     [\<lparr>scheduled_date = 9, emails_limit = 5, emails_sent = 5, is_completed = True\<rparr>] =
     (Inr [\<lparr>scheduled_date = 10, emails_limit = 7, emails_sent = 0, is_completed = False\<rparr>,
           \<lparr>scheduled_date = 11, emails_limit = 9, emails_sent = 0, is_completed = False\<rparr>],
      [\<lparr>scheduled_date = 9, emails_limit = 5, emails_sent = 5, is_completed = True\<rparr>,
       \<lparr>scheduled_date = 10, emails_limit = 7, emails_sent = 0, is_completed = False\<rparr>,
       \<lparr>scheduled_date = 11, emails_limit = 9, emails_sent = 0, is_completed = False\<rparr>]) \<and>
   generateEmailSchedules None (\<lambda>i. 10 + int i) (\<lambda>i. (None, None)) default_config 2 [] =
     (Inr [\<lparr>scheduled_date = 10, emails_limit = 5, emails_sent = 0, is_completed = False\<rparr>,
           \<lparr>scheduled_date = 11, emails_limit = 7, emails_sent = 0, is_completed = False\<rparr>],
      [\<lparr>scheduled_date = 10, emails_limit = 5, emails_sent = 0, is_completed = False\<rparr>,
       \<lparr>scheduled_date = 11, emails_limit = 7, emails_sent = 0, is_completed = False\<rparr>])"
proof -
  have two: "[0..<2] = [0, Suc 0]" by (simp add: upt_rec)
  show ?thesis
    by (simp add: generateEmailSchedules_def default_config_def two createOrUpdateEmailSchedule_def
        getEmailSchedule_def select_schedule_def insert_schedule_def Let_def)
qed

text \<open>
  Claim C6. The claim gives each of the next \<open>n\<close> calendar days its schedule, day \<open>k\<close>
  with limit \<open>default + k * increment\<close> when the table is empty. The loop does so only
  while the date keys of its turns are consecutive days. It steps the date in local
  time and keys the row by the date in UTC, so across a change of the local offset the
  keys are not the next \<open>n\<close> days. In the first run below (3 days, empty table, limits
  5, 7, 9) the keys are the days 0, 2 and 3: day 1 gets no schedule, and day 2 gets the
  limit 7 instead of 9. In the second the keys are the days 0, 0 and 1: the second turn
  overwrites the limit of day 0 with 7, day 1 gets 9 instead of 7, and day 2 gets no
  schedule.
\<close>

theorem generate_schedules_misses_day:
  "generateEmailSchedules None ex_autumn_dates (\<lambda>i. (None, None)) default_config 3 [] =
     (Inr [\<lparr>scheduled_date = 0, emails_limit = 5, emails_sent = 0, is_completed = False\<rparr>,
           \<lparr>scheduled_date = 2, emails_limit = 7, emails_sent = 0, is_completed = False\<rparr>,
           \<lparr>scheduled_date = 3, emails_limit = 9, emails_sent = 0, is_completed = False\<rparr>],
      [\<lparr>scheduled_date = 0, emails_limit = 5, emails_sent = 0, is_completed = False\<rparr>,
       \<lparr>scheduled_date = 2, emails_limit = 7, emails_sent = 0, is_completed = False\<rparr>,
       \<lparr>scheduled_date = 3, emails_limit = 9, emails_sent = 0, is_completed = False\<rparr>]) \<and>
   select_schedule
     (snd (generateEmailSchedules None ex_autumn_dates (\<lambda>i. (None, None)) default_config 3 []))
     1 = None \<and>
   generateEmailSchedules None ex_spring_dates (\<lambda>i. (None, None)) default_config 3 [] =
     (Inr [\<lparr>scheduled_date = 0, emails_limit = 5, emails_sent = 0, is_completed = False\<rparr>,
           \<lparr>scheduled_date = 0, emails_limit = 7, emails_sent = 0, is_completed = False\<rparr>,
           \<lparr>scheduled_date = 1, emails_limit = 9, emails_sent = 0, is_completed = False\<rparr>],
      [\<lparr>scheduled_date = 0, emails_limit = 7, emails_sent = 0, is_completed = False\<rparr>,
       \<lparr>scheduled_date = 1, emails_limit = 9, emails_sent = 0, is_completed = False\<rparr>]) \<and>
   select_schedule
     (snd (generateEmailSchedules None ex_spring_dates (\<lambda>i. (None, None)) default_config 3 []))
     2 = None"
proof -
  have three: "[0..<3] = [0, Suc 0, Suc (Suc 0)]" by (simp add: upt_rec)
  have autumn:
    "generateEmailSchedules None ex_autumn_dates (\<lambda>i. (None, None)) default_config 3 [] =
     (Inr [\<lparr>scheduled_date = 0, emails_limit = 5, emails_sent = 0, is_completed = False\<rparr>,
           \<lparr>scheduled_date = 2, emails_limit = 7, emails_sent = 0, is_completed = False\<rparr>,
           \<lparr>scheduled_date = 3, emails_limit = 9, emails_sent = 0, is_completed = False\<rparr>],
      [\<lparr>scheduled_date = 0, emails_limit = 5, emails_sent = 0, is_completed = False\<rparr>,
       \<lparr>scheduled_date = 2, emails_limit = 7, emails_sent = 0, is_completed = False\<rparr>,
       \<lparr>scheduled_date = 3, emails_limit = 9, emails_sent = 0, is_completed = False\<rparr>])"
    by (simp add: generateEmailSchedules_def default_config_def three ex_autumn_dates_def
        createOrUpdateEmailSchedule_def getEmailSchedule_def select_schedule_def
        insert_schedule_def update_schedule_def Let_def)
  have spring:
    "generateEmailSchedules None ex_spring_dates (\<lambda>i. (None, None)) default_config 3 [] =
     (Inr [\<lparr>scheduled_date = 0, emails_limit = 5, emails_sent = 0, is_completed = False\<rparr>,
           \<lparr>scheduled_date = 0, emails_limit = 7, emails_sent = 0, is_completed = False\<rparr>,
           \<lparr>scheduled_date = 1, emails_limit = 9, emails_sent = 0, is_completed = False\<rparr>],
      [\<lparr>scheduled_date = 0, emails_limit = 7, emails_sent = 0, is_completed = False\<rparr>,
       \<lparr>scheduled_date = 1, emails_limit = 9, emails_sent = 0, is_completed = False\<rparr>])"
    by (simp add: generateEmailSchedules_def default_config_def three ex_spring_dates_def
        createOrUpdateEmailSchedule_def getEmailSchedule_def select_schedule_def
        insert_schedule_def update_schedule_def Let_def)
  show ?thesis
    by (simp only: autumn spring snd_conv) (simp add: select_schedule_def)
qed

section \<open>Properties of the webhook dispatcher\<close>

lemma find_by_key:
  "map email_key xs = map email_key ys \<Longrightarrow>
   map_option e_id (select_email_by_message_id xs m) = map_option e_id (select_email_by_message_id ys m)"
proof (induction xs arbitrary: ys)
  case Nil
  then show ?case by (simp add: select_email_by_message_id_def)
next
  case (Cons x xs)
  then obtain y ys' where ys: "ys = y # ys'" "email_key x = email_key y"
    "map email_key xs = map email_key ys'" by (cases ys) auto
  from Cons.IH [OF ys(3)] ys(1,2) show ?case
    by (auto simp: select_email_by_message_id_def email_key_def)
qed

lemma update_emails_key:
  "(\<And>e. email_key (upd e) = email_key e) \<Longrightarrow>
   map email_key (update_emails tbl i upd) = map email_key tbl"
  by (induction tbl) (auto simp: update_emails_def)

lemma sendgrid_event_key:
  "map email_key (emails (snd (sendgrid_event fs ev st))) = map email_key (emails st)"
  by (simp add: sendgrid_event_def Let_def update_emails_key email_key_def
      split: option.splits sum.splits)

lemma sendgrid_event_result_by_key:
  assumes "map email_key (emails s1) = map email_key (emails s2)"
  shows "fst (sendgrid_event fs ev s1) = fst (sendgrid_event fs ev s2)"
proof -
  from find_by_key [OF assms, of "sg_message_id ev"]
  have "map_option e_id (select_email_by_message_id (emails s1) (sg_message_id ev)) =
        map_option e_id (select_email_by_message_id (emails s2) (sg_message_id ev))" .
  then show ?thesis
    by (cases "select_email_by_message_id (emails s1) (sg_message_id ev)";
        cases "select_email_by_message_id (emails s2) (sg_message_id ev)")
       (auto simp: sendgrid_event_def Let_def split: option.splits sum.splits)
qed

lemma sendgrid_event_not_found:
  "f_select fs = None \<Longrightarrow> select_email_by_message_id (emails s) (sg_message_id ev) = None \<Longrightarrow>
   sendgrid_event fs ev s = (not_found_result ev, s)"
  by (simp add: sendgrid_event_def)

lemma sendgrid_event_select_fault:
  "f_select fs = Some m \<Longrightarrow> sendgrid_event fs ev s = (error_result ev m, s)"
  by (simp add: sendgrid_event_def)

lemma sendgrid_event_names:
  "r_event (fst (sendgrid_event fs ev s)) = sg_event_type ev \<and>
   r_messageId (fst (sendgrid_event fs ev s)) = sg_message_id ev"
  by (simp add: sendgrid_event_def Let_def error_result_def not_found_result_def
      success_result_def unsupported_result_def split: option.splits sum.splits)

lemma sendgrid_loop_results:
  assumes "map email_key (emails st) = map email_key (emails st0)"
  shows "\<exists>rs st'. sendgrid_loop env i evs acc st = (acc @ rs, st') \<and>
           length rs = length evs \<and>
           map email_key (emails st') = map email_key (emails st0) \<and>
           (\<forall>j<length evs. rs ! j = fst (sendgrid_event (env (i + j)) (evs ! j) st0))"
  using assms
proof (induction evs arbitrary: i acc st)
  case Nil
  then show ?case by simp
next
  case (Cons ev rest)
  obtain r st1 where step: "sendgrid_event (env i) ev st = (r, st1)"
    by (cases "sendgrid_event (env i) ev st")
  have key1: "map email_key (emails st1) = map email_key (emails st0)"
    using sendgrid_event_key [of "env i" ev st] step Cons.prems by simp
  have r: "r = fst (sendgrid_event (env i) ev st0)"
    using sendgrid_event_result_by_key [OF Cons.prems, of "env i" ev] step by simp
  from Cons.IH [OF key1, of "Suc i" "acc @ [r]"] obtain rs st' where
    run: "sendgrid_loop env (Suc i) rest (acc @ [r]) st1 = ((acc @ [r]) @ rs, st')" and
    len: "length rs = length rest" and
    key: "map email_key (emails st') = map email_key (emails st0)" and
    each: "\<forall>j<length rest. rs ! j = fst (sendgrid_event (env (Suc i + j)) (rest ! j) st0)"
    by blast
  have whole: "sendgrid_loop env i (ev # rest) acc st = (acc @ (r # rs), st')"
    using step run by simp
  have "(r # rs) ! j = fst (sendgrid_event (env (i + j)) ((ev # rest) ! j) st0)"
    if "j < length (ev # rest)" for j
  proof (cases j)
    case 0
    with r show ?thesis by simp
  next
    case (Suc j')
    with that each show ?thesis by simp
  qed
  with whole len key show ?case
    by (intro exI [of _ "r # rs"] exI [of _ st']) simp
qed

lemma sendgrid_loop_append:
  "sendgrid_loop env i (xs @ ys) acc st =
     (case sendgrid_loop env i xs acc st of
        (acc', st') \<Rightarrow> sendgrid_loop env (i + length xs) ys acc' st')"
  by (induction xs arbitrary: i acc st) (auto split: prod.splits)

lemma sendgrid_loop_unknown_keeps_store:
  assumes "i < length evs" and "f_select (env i) = None"
    and "select_email_by_message_id (emails st) (sg_message_id (evs ! i)) = None"
  shows "snd (sendgrid_loop env 0 (take (Suc i) evs) [] st) =
         snd (sendgrid_loop env 0 (take i evs) [] st)"
proof -
  obtain rs s where before: "sendgrid_loop env 0 (take i evs) [] st = (rs, s)"
    by (cases "sendgrid_loop env 0 (take i evs) [] st")
  have key: "map email_key (emails s) = map email_key (emails st)"
    using sendgrid_loop_results [of st st env 0 "take i evs" "[]"] before by auto
  from find_by_key [OF key, of "sg_message_id (evs ! i)"] assms(3)
  have unknown: "select_email_by_message_id (emails s) (sg_message_id (evs ! i)) = None"
    by simp
  have split: "take (Suc i) evs = take i evs @ [evs ! i]"
    using assms(1) by (simp add: take_Suc_conv_app_nth)
  have len: "length (take i evs) = i" using assms(1) by simp
  show ?thesis
    using before sendgrid_event_not_found [OF assms(2) unknown]
    using assms(1) by (simp add: split sendgrid_loop_append len min_absorb2)
qed

lemma sendgrid_event_write_fault:
  assumes "f_select fs = None"
    and "select_email_by_message_id (emails s) (sg_message_id ev) = Some email"
    and "((sg_event_type ev = ''open'' \<or> sg_event_type ev = ''click'') \<and>
          toISOString (sg_timestamp ev) = Inr t \<and> f_update_email fs = Some m) \<or>
         (sg_event_type ev = ''bounce'' \<and>
          (f_update_email fs = Some m \<or>
           (f_update_email fs = None \<and> f_update_company fs = Some m)))"
  shows "fst (sendgrid_event fs ev s) = error_result ev m"
  using assms by (auto simp: sendgrid_event_def Let_def)

text \<open>
  Claim C3. A batch of \<open>n\<close> events gives \<open>n\<close> results, the \<open>i\<close>-th for the \<open>i\<close>-th
  event: it carries that event's type and message id, and it is the result the event
  would get alone on the store the batch started from. An event whose message id
  matches no email row (the lookup answered) gets "skipped" with the reason "Email not
  found", and the store after its turn is the store before its turn. A lookup or a
  write that fails gives an error result with the store's message. Whatever the store
  answers during one event, the results of all other events are the same. The
  single-event provider answers an unknown message id with the failure "Email not
  found" and leaves the store as it was.
\<close>

theorem sendgrid_batch_results:
  "(\<exists>results st'.
     processSendGridWebhook env (Events evs) st = (SgProcessed (length evs) results, st') \<and>
     length results = length evs \<and>
     (\<forall>i<length evs.
        r_event (results ! i) = sg_event_type (evs ! i) \<and>
        r_messageId (results ! i) = sg_message_id (evs ! i) \<and>
        results ! i = fst (sendgrid_event (env i) (evs ! i) st) \<and>
        (f_select (env i) = None \<and>
         select_email_by_message_id (emails st) (sg_message_id (evs ! i)) = None \<longrightarrow>
           results ! i = not_found_result (evs ! i) \<and>
           snd (sendgrid_loop env 0 (take (Suc i) evs) [] st) =
             snd (sendgrid_loop env 0 (take i evs) [] st)) \<and>
        (\<forall>m. f_select (env i) = Some m \<longrightarrow> results ! i = error_result (evs ! i) m) \<and>
        (\<forall>m email t.
           f_select (env i) = None \<and>
           select_email_by_message_id (emails st) (sg_message_id (evs ! i)) = Some email \<and>
           (((sg_event_type (evs ! i) = ''open'' \<or> sg_event_type (evs ! i) = ''click'') \<and>
             toISOString (sg_timestamp (evs ! i)) = Inr t \<and> f_update_email (env i) = Some m) \<or>
            (sg_event_type (evs ! i) = ''bounce'' \<and>
             (f_update_email (env i) = Some m \<or>
              (f_update_email (env i) = None \<and> f_update_company (env i) = Some m)))) \<longrightarrow>
           results ! i = error_result (evs ! i) m) \<and>
        (\<forall>env'. (\<forall>j. j \<noteq> i \<longrightarrow> env' j = env j) \<longrightarrow>
           (\<exists>results' st''.
              processSendGridWebhook env' (Events evs) st =
                (SgProcessed (length evs) results', st'') \<and>
              (\<forall>j<length evs. j \<noteq> i \<longrightarrow> results' ! j = results ! j))))) \<and>
   (f_select fs = None \<and> select_email_by_message_id (emails s) (mg_message_id p) = None \<longrightarrow>
      processMailgunWebhook fs p s =
        (\<lparr>mg_success = False, mg_error = Some ''Email not found'', mg_r_event = None,
          mg_r_messageId = mg_message_id p, mg_r_emailId = None, mg_r_url = None,
          mg_r_reason = None\<rparr>, s))"
proof -
  obtain rs st' where
    run: "sendgrid_loop env 0 evs [] st = (rs, st')" and
    len: "length rs = length evs" and
    each: "\<forall>j<length evs. rs ! j = fst (sendgrid_event (env j) (evs ! j) st)"
    using sendgrid_loop_results [of st st env 0 evs "[]"] by auto
  have resp: "processSendGridWebhook env (Events evs) st = (SgProcessed (length evs) rs, st')"
    using run len by (simp add: processSendGridWebhook_def)
  have other: "\<exists>results' st''.
       processSendGridWebhook env' (Events evs) st = (SgProcessed (length evs) results', st'') \<and>
       (\<forall>j<length evs. j \<noteq> i \<longrightarrow> results' ! j = rs ! j)"
    if same: "\<forall>j. j \<noteq> i \<longrightarrow> env' j = env j" for env' i
  proof -
    obtain rs' st'' where
      run': "sendgrid_loop env' 0 evs [] st = (rs', st'')" and
      len': "length rs' = length evs" and
      each': "\<forall>j<length evs. rs' ! j = fst (sendgrid_event (env' j) (evs ! j) st)"
      using sendgrid_loop_results [of st st env' 0 evs "[]"] by auto
    have "\<forall>j<length evs. j \<noteq> i \<longrightarrow> rs' ! j = rs ! j"
      using same each each' by simp
    with run' len' show ?thesis by (simp add: processSendGridWebhook_def)
  qed
  have failed_write: "rs ! i = error_result (evs ! i) m"
    if "i < length evs"
       "f_select (env i) = None \<and>
        select_email_by_message_id (emails st) (sg_message_id (evs ! i)) = Some email \<and>
        (((sg_event_type (evs ! i) = ''open'' \<or> sg_event_type (evs ! i) = ''click'') \<and>
          toISOString (sg_timestamp (evs ! i)) = Inr t \<and> f_update_email (env i) = Some m) \<or>
         (sg_event_type (evs ! i) = ''bounce'' \<and>
          (f_update_email (env i) = Some m \<or>
           (f_update_email (env i) = None \<and> f_update_company (env i) = Some m))))"
    for i m email t
    using that each sendgrid_event_write_fault [of "env i" st "evs ! i" email t m] by simp
  have one: "r_event (rs ! i) = sg_event_type (evs ! i) \<and>
        r_messageId (rs ! i) = sg_message_id (evs ! i) \<and>
        rs ! i = fst (sendgrid_event (env i) (evs ! i) st) \<and>
        (f_select (env i) = None \<and>
         select_email_by_message_id (emails st) (sg_message_id (evs ! i)) = None \<longrightarrow>
           rs ! i = not_found_result (evs ! i) \<and>
           snd (sendgrid_loop env 0 (take (Suc i) evs) [] st) =
             snd (sendgrid_loop env 0 (take i evs) [] st)) \<and>
        (\<forall>m. f_select (env i) = Some m \<longrightarrow> rs ! i = error_result (evs ! i) m)"
    if "i < length evs" for i
    using that each sendgrid_event_names [of "env i" "evs ! i" st]
      sendgrid_loop_unknown_keeps_store [of i evs env st]
    by (auto simp: sendgrid_event_not_found sendgrid_event_select_fault)
  have batch: "\<exists>results st'.
     processSendGridWebhook env (Events evs) st = (SgProcessed (length evs) results, st') \<and>
     length results = length evs \<and>
     (\<forall>i<length evs.
        r_event (results ! i) = sg_event_type (evs ! i) \<and>
        r_messageId (results ! i) = sg_message_id (evs ! i) \<and>
        results ! i = fst (sendgrid_event (env i) (evs ! i) st) \<and>
        (f_select (env i) = None \<and>
         select_email_by_message_id (emails st) (sg_message_id (evs ! i)) = None \<longrightarrow>
           results ! i = not_found_result (evs ! i) \<and>
           snd (sendgrid_loop env 0 (take (Suc i) evs) [] st) =
             snd (sendgrid_loop env 0 (take i evs) [] st)) \<and>
        (\<forall>m. f_select (env i) = Some m \<longrightarrow> results ! i = error_result (evs ! i) m) \<and>
        (\<forall>m email t.
           f_select (env i) = None \<and>
           select_email_by_message_id (emails st) (sg_message_id (evs ! i)) = Some email \<and>
           (((sg_event_type (evs ! i) = ''open'' \<or> sg_event_type (evs ! i) = ''click'') \<and>
             toISOString (sg_timestamp (evs ! i)) = Inr t \<and> f_update_email (env i) = Some m) \<or>
            (sg_event_type (evs ! i) = ''bounce'' \<and>
             (f_update_email (env i) = Some m \<or>
              (f_update_email (env i) = None \<and> f_update_company (env i) = Some m)))) \<longrightarrow>
           results ! i = error_result (evs ! i) m) \<and>
        (\<forall>env'. (\<forall>j. j \<noteq> i \<longrightarrow> env' j = env j) \<longrightarrow>
           (\<exists>results' st''.
              processSendGridWebhook env' (Events evs) st =
                (SgProcessed (length evs) results', st'') \<and>
              (\<forall>j<length evs. j \<noteq> i \<longrightarrow> results' ! j = results ! j))))"
    using resp len one failed_write other by blast
  have single: "f_select fs = None \<and>
      select_email_by_message_id (emails s) (mg_message_id p) = None \<longrightarrow>
      processMailgunWebhook fs p s =
        (\<lparr>mg_success = False, mg_error = Some ''Email not found'', mg_r_event = None,
          mg_r_messageId = mg_message_id p, mg_r_emailId = None, mg_r_url = None,
          mg_r_reason = None\<rparr>, s)"
    by (simp add: processMailgunWebhook_def)
  from batch single show ?thesis by (rule conjI)
qed

lemmas ex_defs = ex_email_def ex_company_def ex_event_def ex_webhook_store_def ex_webhook_env_def

lemma ex_batch_run:
  "fst (processSendGridWebhook ex_webhook_env
     (Events [ex_event ''open'' ''A'', ex_event ''click'' ''B'', ex_event ''bounce'' ''C''])
     ex_webhook_store) =
   SgProcessed 3
     [success_result (ex_event ''open'' ''A'') 1 None None,
      not_found_result (ex_event ''click'' ''B''),
      error_result (ex_event ''bounce'' ''C'') ''write failed'']"
  by (simp add: processSendGridWebhook_def sendgrid_event_def ex_defs no_faults_def
      select_email_by_message_id_def toISOString_def update_emails_def Let_def)

theorem sendgrid_batch_results_witness:
  "select_email_by_message_id (emails ex_webhook_store) ''B'' = None \<and>
   fst (processSendGridWebhook ex_webhook_env
     (Events [ex_event ''open'' ''A'', ex_event ''click'' ''B'', ex_event ''bounce'' ''C''])
     ex_webhook_store) =
   SgProcessed 3
     [success_result (ex_event ''open'' ''A'') 1 None None,
      not_found_result (ex_event ''click'' ''B''),
      error_result (ex_event ''bounce'' ''C'') ''write failed''] \<and>
   snd (sendgrid_loop ex_webhook_env 0 [ex_event ''open'' ''A'', ex_event ''click'' ''B'']
     [] ex_webhook_store) =
   snd (sendgrid_loop ex_webhook_env 0 [ex_event ''open'' ''A''] [] ex_webhook_store) \<and>
   processMailgunWebhook no_faults
     \<lparr>mg_event = ''clicked'', mg_message_id = ''B'', mg_timestamp = Some 100, mg_url = None,
      mg_reason = None\<rparr> ex_webhook_store =
     (\<lparr>mg_success = False, mg_error = Some ''Email not found'', mg_r_event = None,
       mg_r_messageId = ''B'', mg_r_emailId = None, mg_r_url = None, mg_r_reason = None\<rparr>,
      ex_webhook_store)"
proof -
  let ?evs = "[ex_event ''open'' ''A'', ex_event ''click'' ''B'', ex_event ''bounce'' ''C'']"
  have unknown: "select_email_by_message_id (emails ex_webhook_store) ''B'' = None"
    by (simp add: select_email_by_message_id_def ex_defs)
  have sel: "f_select (ex_webhook_env 1) = None"
    by (simp add: ex_webhook_env_def no_faults_def)
  have mid: "sg_message_id (?evs ! 1) = ''B''" by (simp add: ex_event_def)
  from sendgrid_batch_results [of ex_webhook_env ?evs ex_webhook_store, THEN conjunct1]
  obtain results st' where
    each: "\<forall>i<length ?evs.
        (f_select (ex_webhook_env i) = None \<and>
         select_email_by_message_id (emails ex_webhook_store) (sg_message_id (?evs ! i)) = None \<longrightarrow>
           results ! i = not_found_result (?evs ! i) \<and>
           snd (sendgrid_loop ex_webhook_env 0 (take (Suc i) ?evs) [] ex_webhook_store) =
             snd (sendgrid_loop ex_webhook_env 0 (take i ?evs) [] ex_webhook_store))"
    by blast
  have hyp: "f_select (ex_webhook_env 1) = None \<and>
      select_email_by_message_id (emails ex_webhook_store) (sg_message_id (?evs ! 1)) = None"
    using sel unknown mid by simp
  have t2: "take (Suc 1) ?evs = [ex_event ''open'' ''A'', ex_event ''click'' ''B'']" by simp
  have t1: "take 1 ?evs = [ex_event ''open'' ''A'']" by simp
  have "(1::nat) < length ?evs" by simp
  from each [rule_format, OF this, THEN conjunct2, OF hyp] have
    "snd (sendgrid_loop ex_webhook_env 0 (take (Suc 1) ?evs) [] ex_webhook_store) =
     snd (sendgrid_loop ex_webhook_env 0 (take 1 ?evs) [] ex_webhook_store)" .
  then have kept:
    "snd (sendgrid_loop ex_webhook_env 0 [ex_event ''open'' ''A'', ex_event ''click'' ''B'']
       [] ex_webhook_store) =
     snd (sendgrid_loop ex_webhook_env 0 [ex_event ''open'' ''A''] [] ex_webhook_store)"
    by (simp only: t2 t1)
  have single: "processMailgunWebhook no_faults
     \<lparr>mg_event = ''clicked'', mg_message_id = ''B'', mg_timestamp = Some 100, mg_url = None,
      mg_reason = None\<rparr> ex_webhook_store =
     (\<lparr>mg_success = False, mg_error = Some ''Email not found'', mg_r_event = None,
       mg_r_messageId = ''B'', mg_r_emailId = None, mg_r_url = None, mg_r_reason = None\<rparr>,
      ex_webhook_store)"
    using sendgrid_batch_results [where fs = no_faults and s = ex_webhook_store
        and p = "\<lparr>mg_event = ''clicked'', mg_message_id = ''B'', mg_timestamp = Some 100,
                 mg_url = None, mg_reason = None\<rparr>", THEN conjunct2] unknown
    by (simp add: no_faults_def)
  from unknown ex_batch_run kept single show ?thesis by blast
qed

lemma select_after_update_emails:
  assumes "select_email_by_message_id tbl m = Some email"
    and "\<And>e. e_message_id (upd e) = e_message_id e"
  shows "select_email_by_message_id (update_emails tbl (e_id email) upd) m = Some (upd email)"
  using assms(1)
proof (induction tbl)
  case Nil
  then show ?case by (simp add: select_email_by_message_id_def)
next
  case (Cons x xs)
  then show ?case
    using assms(2)
    by (auto simp: select_email_by_message_id_def update_emails_def split: if_splits)
qed

lemma update_companies_nth:
  "i < length tbl \<Longrightarrow>
   update_companies tbl k upd ! i =
     (if Some (c_id (tbl ! i)) = k then upd (tbl ! i) else tbl ! i)"
  by (simp add: update_companies_def)

lemma length_update_companies: "length (update_companies tbl k upd) = length tbl"
  by (simp add: update_companies_def)

lemma sendgrid_bounce_run:
  assumes "select_email_by_message_id (emails st) (sg_message_id ev) = Some email"
    and "sg_event_type ev = ''bounce''"
  shows "sendgrid_event no_faults ev st =
     (success_result ev (e_id email) (sg_reason ev) None,
      st\<lparr>emails := update_emails (emails st) (e_id email) (\<lambda>e. e\<lparr>e_status := ''bounced''\<rparr>),
         companies := update_companies (companies st) (e_company_id email)
                        (\<lambda>c. c\<lparr>c_email_verified := False\<rparr>)\<rparr>)"
  using assms by (simp add: sendgrid_event_def no_faults_def Let_def)

lemma mailgun_bounce_run:
  assumes "select_email_by_message_id (emails st) (mg_message_id p) = Some email"
    and "mg_event p = ''bounced''"
  shows "processMailgunWebhook no_faults p st =
     (mg_ok p (e_id email) None (mg_reason p),
      st\<lparr>emails := update_emails (emails st) (e_id email) (\<lambda>e. e\<lparr>e_status := ''bounced''\<rparr>),
         companies := update_companies (companies st) (e_company_id email)
                        (\<lambda>c. c\<lparr>c_email_verified := False\<rparr>)\<rparr>)"
  using assms by (simp add: processMailgunWebhook_def no_faults_def Let_def)

text \<open>
  Claim C4. A bounce event (\<^verbatim>\<open>bounce\<close> of the batch provider, \<^verbatim>\<open>bounced\<close> of the
  single-event provider) for the message id of an email row, the store answering all
  calls: afterwards the lookup by that message id gives the same row with status
  \<^verbatim>\<open>bounced\<close>; every company row whose id is the email's \<open>company_id\<close> is the row it
  was with \<open>email_verified = false\<close>, its \<open>status\<close> as before; every other company row is
  unchanged.
\<close>

theorem bounce_marks_email_and_company:
  assumes "select_email_by_message_id (emails st) m = Some email"
    and "(sg_event_type ev = ''bounce'' \<and> sg_message_id ev = m \<and>
          st' = snd (sendgrid_event no_faults ev st)) \<or>
         (mg_event p = ''bounced'' \<and> mg_message_id p = m \<and>
          st' = snd (processMailgunWebhook no_faults p st))"
  shows "select_email_by_message_id (emails st') m = Some (email\<lparr>e_status := ''bounced''\<rparr>) \<and>
         length (companies st') = length (companies st) \<and>
         (\<forall>i<length (companies st).
            if Some (c_id (companies st ! i)) = e_company_id email
            then c_email_verified (companies st' ! i) = False \<and>
                 c_status (companies st' ! i) = c_status (companies st ! i) \<and>
                 companies st' ! i = (companies st ! i)\<lparr>c_email_verified := False\<rparr>
            else companies st' ! i = companies st ! i)"
proof -
  let ?st' = "st\<lparr>emails := update_emails (emails st) (e_id email) (\<lambda>e. e\<lparr>e_status := ''bounced''\<rparr>),
         companies := update_companies (companies st) (e_company_id email)
                        (\<lambda>c. c\<lparr>c_email_verified := False\<rparr>)\<rparr>"
  from assms have st': "st' = ?st'"
    by (auto simp: sendgrid_bounce_run mailgun_bounce_run)
  have sel: "select_email_by_message_id (emails ?st') m = Some (email\<lparr>e_status := ''bounced''\<rparr>)"
    using select_after_update_emails [OF assms(1), of "\<lambda>e. e\<lparr>e_status := ''bounced''\<rparr>"] by simp
  show ?thesis
    unfolding st' using sel
    by (simp add: length_update_companies update_companies_nth)
qed

theorem bounce_marks_email_and_company_witness:
  "select_email_by_message_id (emails ex_webhook_store) ''C'' = Some (ex_email 3 30 ''C'') \<and>
   select_email_by_message_id
     (emails (snd (sendgrid_event no_faults (ex_event ''bounce'' ''C'') ex_webhook_store))) ''C'' =
     Some ((ex_email 3 30 ''C'')\<lparr>e_status := ''bounced''\<rparr>) \<and>
   companies (snd (sendgrid_event no_faults (ex_event ''bounce'' ''C'') ex_webhook_store)) =
     [ex_company 10 ''Acme'' 1 1 True ''contacted'',
      ex_company 30 ''Bolt'' 2 2 False ''contacted''] \<and>
   companies (snd (processMailgunWebhook no_faults
      \<lparr>mg_event = ''bounced'', mg_message_id = ''C'', mg_timestamp = None, mg_url = None,
       mg_reason = None\<rparr> ex_webhook_store)) =
     [ex_company 10 ''Acme'' 1 1 True ''contacted'',
      ex_company 30 ''Bolt'' 2 2 False ''contacted'']"
proof -
  let ?p = "\<lparr>mg_event = ''bounced'', mg_message_id = ''C'', mg_timestamp = None, mg_url = None,
       mg_reason = None\<rparr>"
  have found: "select_email_by_message_id (emails ex_webhook_store) ''C'' = Some (ex_email 3 30 ''C'')"
    by (simp add: select_email_by_message_id_def ex_defs)
  have sg: "sg_event_type (ex_event ''bounce'' ''C'') = ''bounce'' \<and>
            sg_message_id (ex_event ''bounce'' ''C'') = ''C''"
    by (simp add: ex_event_def)
  have c1: "companies (snd (sendgrid_event no_faults (ex_event ''bounce'' ''C'') ex_webhook_store)) =
     [ex_company 10 ''Acme'' 1 1 True ''contacted'', ex_company 30 ''Bolt'' 2 2 False ''contacted'']"
    by (simp add: sendgrid_event_def ex_defs no_faults_def select_email_by_message_id_def
        update_emails_def update_companies_def Let_def)
  have c2: "companies (snd (processMailgunWebhook no_faults ?p ex_webhook_store)) =
     [ex_company 10 ''Acme'' 1 1 True ''contacted'', ex_company 30 ''Bolt'' 2 2 False ''contacted'']"
    by (simp add: processMailgunWebhook_def ex_defs no_faults_def select_email_by_message_id_def
        update_emails_def update_companies_def Let_def)
  from bounce_marks_email_and_company [OF found, where ev = "ex_event ''bounce'' ''C''"
      and st' = "snd (sendgrid_event no_faults (ex_event ''bounce'' ''C'') ex_webhook_store)"] sg
  have "select_email_by_message_id
     (emails (snd (sendgrid_event no_faults (ex_event ''bounce'' ''C'') ex_webhook_store))) ''C'' =
     Some ((ex_email 3 30 ''C'')\<lparr>e_status := ''bounced''\<rparr>)" by simp
  with found c1 c2 show ?thesis by simp
qed

section \<open>Properties of the orchestrators\<close>

lemma select_daily_subset:
  "c \<in> set (select_daily_companies quota tbl) \<Longrightarrow>
   c \<in> set tbl \<and> c_email_verified c \<and> c_status c = ''pending''"
  by (auto simp: select_daily_companies_def ready_for_contact_def dest!: in_set_takeD)

lemma select_daily_sorted: "sorted (map c_priority (select_daily_companies quota tbl))"
proof -
  have "sorted (map c_priority (sort_key c_priority (filter ready_for_contact tbl)))"
    by simp
  then have "sorted (take (nat quota) (map c_priority (sort_key c_priority (filter ready_for_contact tbl))))"
    by (rule sorted_wrt_take)
  then show ?thesis by (simp add: select_daily_companies_def take_map)
qed

lemma select_daily_length:
  "length (select_daily_companies quota tbl) = min (nat quota) (length (filter ready_for_contact tbl))"
  by (simp add: select_daily_companies_def min.commute)

lemma select_daily_best:
  assumes "c \<in> set tbl" "ready_for_contact c" "c \<notin> set (select_daily_companies quota tbl)"
    and "s \<in> set (select_daily_companies quota tbl)"
  shows "c_priority s \<le> c_priority c"
proof -
  let ?xs = "sort_key c_priority (filter ready_for_contact tbl)"
  let ?n = "nat quota"
  from assms(1,2) have "c \<in> set ?xs" by simp
  then have "c \<in> set (take ?n ?xs) \<union> set (drop ?n ?xs)"
    by (metis append_take_drop_id set_append)
  with assms(3) have c: "c \<in> set (drop ?n ?xs)" by (simp add: select_daily_companies_def)
  from assms(4) have s: "s \<in> set (take ?n ?xs)" by (simp add: select_daily_companies_def)
  have "sorted (map c_priority (take ?n ?xs @ drop ?n ?xs))" by simp
  then have "\<forall>x\<in>set (take ?n ?xs). \<forall>y\<in>set (drop ?n ?xs). c_priority x \<le> c_priority y"
    unfolding map_append sorted_append by auto
  with c s show ?thesis by blast
qed

lemma update_companies_ids [simp]:
  "(\<And>c. c_id (upd c) = c_id c) \<Longrightarrow> map c_id (update_companies tbl k upd) = map c_id tbl"
  by (induction tbl) (auto simp: update_companies_def)

lemma verification_gate_id:
  "verification_gate cfg env company = Inr (Inr company') \<Longrightarrow> c_id company' = c_id company"
  by (auto simp: verification_gate_def split: if_splits option.splits sum.splits)

lemma contact_company_companies:
  "companies (snd (contact_company cfg env today company st)) = companies st \<or>
   companies (snd (contact_company cfg env today company st)) =
     update_companies (companies st) (Some (c_id company)) (\<lambda>c. c\<lparr>c_status := ''contacted''\<rparr>)"
  by (auto simp: contact_company_def markCompanyAsContacted_def createEmail_def Let_def
      split: sum.splits option.splits prod.splits)

lemma process_company_companies:
  "companies (snd (process_company cfg env today company st)) = companies st \<or>
   companies (snd (process_company cfg env today company st)) =
     update_companies (companies st) (Some (c_id company)) (\<lambda>c. c\<lparr>c_status := ''contacted''\<rparr>)"
proof (cases "verification_gate cfg env company")
  case (Inl e)
  then show ?thesis by (simp add: process_company_def)
next
  case (Inr x)
  show ?thesis
  proof (cases x)
    case (Inl skipped)
    with Inr show ?thesis by (simp add: process_company_def)
  next
    case (Inr company')
    with \<open>verification_gate cfg env company = Inr x\<close>
    have gate: "verification_gate cfg env company = Inr (Inr company')" by simp
    then have "c_id company' = c_id company" by (rule verification_gate_id)
    with contact_company_companies [of cfg env today company' st] gate show ?thesis
      by (auto simp: process_company_def split: prod.splits sum.splits)
  qed
qed

lemma process_company_frame:
  "map c_id (companies (snd (process_company cfg env today company st))) = map c_id (companies st) \<and>
   (\<forall>i<length (companies st). c_id (companies st ! i) \<noteq> c_id company \<longrightarrow>
      companies (snd (process_company cfg env today company st)) ! i = companies st ! i)"
  using process_company_companies [of cfg env today company st]
  by (auto simp: update_companies_nth)

lemma main_loop_frame:
  "\<exists>entries st'. main_loop cfg env today i cs console st = (console @ entries, st') \<and>
     map fst entries = map c_name cs \<and>
     map c_id (companies st') = map c_id (companies st) \<and>
     (\<forall>k<length (companies st). c_id (companies st ! k) \<notin> c_id ` set cs \<longrightarrow>
        companies st' ! k = companies st ! k)"
proof (induction cs arbitrary: i console st)
  case Nil
  then show ?case by simp
next
  case (Cons c rest)
  obtain out st1 where step: "process_company cfg (env i) today c st = (out, st1)"
    by (cases "process_company cfg (env i) today c st")
  from process_company_frame [of cfg "env i" today c st] step have
    ids1: "map c_id (companies st1) = map c_id (companies st)" and
    frame1: "\<forall>k<length (companies st). c_id (companies st ! k) \<noteq> c_id c \<longrightarrow>
               companies st1 ! k = companies st ! k"
    by simp_all
  from Cons.IH [of "Suc i" "console @ [(c_name c, out)]" st1] obtain entries st' where
    run: "main_loop cfg env today (Suc i) rest (console @ [(c_name c, out)]) st1 =
            ((console @ [(c_name c, out)]) @ entries, st')" and
    names: "map fst entries = map c_name rest" and
    ids: "map c_id (companies st') = map c_id (companies st1)" and
    frame: "\<forall>k<length (companies st1). c_id (companies st1 ! k) \<notin> c_id ` set rest \<longrightarrow>
               companies st' ! k = companies st1 ! k"
    by blast
  have len: "length (companies st1) = length (companies st)"
    using ids1 by (metis length_map)
  have same_id: "c_id (companies st1 ! k) = c_id (companies st ! k)" if "k < length (companies st)" for k
    using ids1 that len by (metis nth_map)
  have "companies st' ! k = companies st ! k"
    if "k < length (companies st)" "c_id (companies st ! k) \<notin> c_id ` set (c # rest)" for k
    using that frame frame1 len same_id by auto
  then show ?case
    using step run names ids ids1
    by (intro exI [of _ "(c_name c, out) # entries"] exI [of _ st']) simp
qed

lemma workflow_company_threw:
  assumes "workflow_company env template c sched st = (Inl e, st')"
  shows "schedules st' = schedules st \<and>
         map c_id (companies st') = map c_id (companies st) \<and>
         (\<forall>k<length (companies st). c_id (companies st ! k) \<noteq> c_id c \<longrightarrow>
            companies st' ! k = companies st ! k)"
  using assms
  by (auto simp: workflow_company_def createEmail_def Let_def update_companies_nth
      split: sum.splits option.splits prod.splits)

lemma workflow_company_sent:
  assumes "workflow_company env template c sched st = (Inr (entry, sched'), st')"
  shows "cr_company entry = c_name c \<and> cr_status entry = ''sent'' \<and>
         sched' = sched\<lparr>emails_sent := emails_sent sched + 1,
                        is_completed := (emails_limit sched \<le> emails_sent sched + 1)\<rparr> \<and>
         schedules st' = update_schedule (schedules st) (scheduled_date sched)
            (\<lambda>r. r\<lparr>emails_sent := emails_sent sched + 1,
                    is_completed := (emails_limit sched \<le> emails_sent sched + 1)\<rparr>) \<and>
         map c_id (companies st') = map c_id (companies st) \<and>
         (\<forall>k<length (companies st). c_id (companies st ! k) \<noteq> c_id c \<longrightarrow>
            companies st' ! k = companies st ! k)"
  using assms
  by (auto simp: workflow_company_def createEmail_def Let_def update_companies_nth sent_entry_def
      split: sum.splits option.splits prod.splits)

lemma workflow_company_sent_sync:
  assumes "workflow_company env template c sched st = (Inr (entry, sched'), st')"
    and "select_schedule (schedules st) (scheduled_date sched) = Some sched"
  shows "select_schedule (schedules st') (scheduled_date sched') = Some sched'"
  using workflow_company_sent [OF assms(1)] assms(2)
  by (simp add: select_update)

lemma workflow_loop_entries:
  "\<exists>rs sched' st'.
     workflow_loop env template i cs acc sched st = (acc @ rs, sched', st') \<and>
     length rs \<le> length cs \<and>
     (\<forall>j<length rs. cr_company (rs ! j) = c_name (cs ! j) \<and>
        (cr_status (rs ! j) = ''sent'' \<or> cr_status (rs ! j) = ''error'')) \<and>
     emails_limit sched' = emails_limit sched \<and>
     scheduled_date sched' = scheduled_date sched \<and>
     emails_sent sched' \<le> emails_sent sched + int (length rs) \<and>
     (length rs < length cs \<longrightarrow> emails_limit sched' \<le> emails_sent sched') \<and>
     (select_schedule (schedules st) (scheduled_date sched) = Some sched \<longrightarrow>
        select_schedule (schedules st') (scheduled_date sched) = Some sched') \<and>
     map c_id (companies st') = map c_id (companies st) \<and>
     (\<forall>k<length (companies st). c_id (companies st ! k) \<notin> c_id ` set cs \<longrightarrow>
        companies st' ! k = companies st ! k)"
proof (induction cs arbitrary: i acc sched st)
  case Nil
  then show ?case by simp
next
  case (Cons c rest)
  obtain res st1 where step: "workflow_company (env i) template c sched st = (res, st1)"
    by (cases "workflow_company (env i) template c sched st")
  show ?case
  proof (cases res)
    case (Inl e)
    with step have threw: "workflow_company (env i) template c sched st = (Inl e, st1)" by simp
    note t = workflow_company_threw [OF threw]
    from Cons.IH [of "Suc i" "acc @ [error_entry c e]" sched st1] obtain rs sched' st' where
      run: "workflow_loop env template (Suc i) rest (acc @ [error_entry c e]) sched st1 =
              ((acc @ [error_entry c e]) @ rs, sched', st')" and
      len: "length rs \<le> length rest" and
      each: "\<forall>j<length rs. cr_company (rs ! j) = c_name (rest ! j) \<and>
               (cr_status (rs ! j) = ''sent'' \<or> cr_status (rs ! j) = ''error'')" and
      lim: "emails_limit sched' = emails_limit sched" "scheduled_date sched' = scheduled_date sched" and
      sent: "emails_sent sched' \<le> emails_sent sched + int (length rs)" and
      early: "length rs < length rest \<longrightarrow> emails_limit sched' \<le> emails_sent sched'" and
      sync: "select_schedule (schedules st1) (scheduled_date sched) = Some sched \<longrightarrow>
               select_schedule (schedules st') (scheduled_date sched) = Some sched'" and
      ids: "map c_id (companies st') = map c_id (companies st1)" and
      frame: "\<forall>k<length (companies st1). c_id (companies st1 ! k) \<notin> c_id ` set rest \<longrightarrow>
               companies st' ! k = companies st1 ! k"
      by blast
    have whole: "workflow_loop env template i (c # rest) acc sched st =
                   (acc @ (error_entry c e # rs), sched', st')"
      using threw run by simp
    have len1: "length (companies st1) = length (companies st)"
      using t by (metis length_map)
    have same_id: "c_id (companies st1 ! k) = c_id (companies st ! k)"
      if "k < length (companies st)" for k
      using t that len1 by (metis nth_map)
    have fr: "companies st' ! k = companies st ! k"
      if "k < length (companies st)" "c_id (companies st ! k) \<notin> c_id ` set (c # rest)" for k
      using that frame t len1 same_id by auto
    have ea: "cr_company ((error_entry c e # rs) ! j) = c_name ((c # rest) ! j) \<and>
              (cr_status ((error_entry c e # rs) ! j) = ''sent'' \<or>
               cr_status ((error_entry c e # rs) ! j) = ''error'')"
      if "j < length (error_entry c e # rs)" for j
      using that each by (cases j) (simp_all add: error_entry_def)
    show ?thesis
      using whole len ea lim sent early sync t ids fr
      by (intro exI [of _ "error_entry c e # rs"] exI [of _ sched'] exI [of _ st']) auto
  next
    case (Inr p)
    obtain entry sched1 where p: "p = (entry, sched1)" by (cases p)
    with Inr step have went:
      "workflow_company (env i) template c sched st = (Inr (entry, sched1), st1)" by simp
    note w = workflow_company_sent [OF went]
    have s1: "emails_limit sched1 = emails_limit sched" "scheduled_date sched1 = scheduled_date sched"
      "emails_sent sched1 = emails_sent sched + 1"
      "is_completed sched1 = (emails_limit sched \<le> emails_sent sched + 1)"
      using w by simp_all
    have sync1: "select_schedule (schedules st) (scheduled_date sched) = Some sched \<longrightarrow>
                 select_schedule (schedules st1) (scheduled_date sched) = Some sched1"
      using workflow_company_sent_sync [OF went] s1(2) by simp
    have len1: "length (companies st1) = length (companies st)"
      using w by (metis length_map)
    have same_id: "c_id (companies st1 ! k) = c_id (companies st ! k)"
      if "k < length (companies st)" for k
      using w that len1 by (metis nth_map)
    show ?thesis
    proof (cases "is_completed sched1")
      case True
      with went have whole: "workflow_loop env template i (c # rest) acc sched st =
                     (acc @ [entry], sched1, st1)" by simp
      have fr: "companies st1 ! k = companies st ! k"
        if "k < length (companies st)" "c_id (companies st ! k) \<notin> c_id ` set (c # rest)" for k
        using that w by auto
      show ?thesis
        using whole w s1 sync1 True fr
        by (intro exI [of _ "[entry]"] exI [of _ sched1] exI [of _ st1]) auto
    next
      case False
      from Cons.IH [of "Suc i" "acc @ [entry]" sched1 st1] obtain rs sched' st' where
        run: "workflow_loop env template (Suc i) rest (acc @ [entry]) sched1 st1 =
                ((acc @ [entry]) @ rs, sched', st')" and
        len: "length rs \<le> length rest" and
        each: "\<forall>j<length rs. cr_company (rs ! j) = c_name (rest ! j) \<and>
                 (cr_status (rs ! j) = ''sent'' \<or> cr_status (rs ! j) = ''error'')" and
        lim: "emails_limit sched' = emails_limit sched1" "scheduled_date sched' = scheduled_date sched1" and
        sent: "emails_sent sched' \<le> emails_sent sched1 + int (length rs)" and
        early: "length rs < length rest \<longrightarrow> emails_limit sched' \<le> emails_sent sched'" and
        sync: "select_schedule (schedules st1) (scheduled_date sched1) = Some sched1 \<longrightarrow>
                 select_schedule (schedules st') (scheduled_date sched1) = Some sched'" and
        ids: "map c_id (companies st') = map c_id (companies st1)" and
        frame: "\<forall>k<length (companies st1). c_id (companies st1 ! k) \<notin> c_id ` set rest \<longrightarrow>
                 companies st' ! k = companies st1 ! k"
        by blast
      have whole: "workflow_loop env template i (c # rest) acc sched st =
                     (acc @ (entry # rs), sched', st')"
        using went run False by simp
      have fr: "companies st' ! k = companies st ! k"
        if "k < length (companies st)" "c_id (companies st ! k) \<notin> c_id ` set (c # rest)" for k
        using that frame w len1 same_id by auto
      have ea: "cr_company ((entry # rs) ! j) = c_name ((c # rest) ! j) \<and>
                (cr_status ((entry # rs) ! j) = ''sent'' \<or> cr_status ((entry # rs) ! j) = ''error'')"
        if "j < length (entry # rs)" for j
        using that each w by (cases j) simp_all
      show ?thesis
        using whole len ea lim s1 sent early sync sync1 w ids fr
        by (intro exI [of _ "entry # rs"] exI [of _ sched'] exI [of _ st']) auto
    qed
  qed
qed

section \<open>Properties of content parsing\<close>

text \<open>
  Claim C8. Two responses that hold the marker. In the first nothing follows
  \<^verbatim>\<open>SUBJECT:\<close> on its line: the first pattern's \<^verbatim>\<open>\s*\<close> runs over the line feed, so the
  subject is the next line, while the second pattern ends the marker's line at the first
  line feed, so the body starts with that same line. In the second the lines end in
  CR LF: neither pattern matches, and the parser answers as if the marker were absent.
\<close>

theorem parse_marker_line_misread:
  "parseGeneratedContent (''SUBJECT:'' @ [LF] @ ''Hello'' @ [LF] @ ''Body'') =
     \<lparr>subject = ''Hello'', body = ''Hello'' @ [LF] @ ''Body''\<rparr> \<and>
   parseGeneratedContent (''SUBJECT: Hi'' @ [CHR 0x0D, LF] @ ''Body'') =
     \<lparr>subject = ''Job Application'', body = ''SUBJECT: Hi'' @ [CHR 0x0D, LF] @ ''Body''\<rparr>"
  by (simp add: parseGeneratedContent_def starts_with_marker_def is_white_space_def
      is_line_terminator_def trim_def LF_def)

lemma subjectMatch_no_marker:
  "(\<forall>i. \<not> starts_with_marker (drop i content)) \<Longrightarrow> subjectMatch content = None"
proof (induction content)
  case Nil
  then show ?case by simp
next
  case (Cons c cs)
  from Cons.prems have here: "\<not> starts_with_marker (c # cs)"
    by (metis drop0)
  have "\<forall>i. \<not> starts_with_marker (drop i cs)"
  proof
    fix i
    from Cons.prems have "\<not> starts_with_marker (drop (Suc i) (c # cs))" by blast
    then show "\<not> starts_with_marker (drop i cs)" by simp
  qed
  with Cons.IH here show ?case by simp
qed

lemma bodyMatch_no_marker:
  "(\<forall>i. \<not> starts_with_marker (drop i content)) \<Longrightarrow> bodyMatch content = None"
proof (induction content)
  case Nil
  then show ?case by simp
next
  case (Cons c cs)
  from Cons.prems have here: "\<not> starts_with_marker (c # cs)"
    by (metis drop0)
  have "\<forall>i. \<not> starts_with_marker (drop i cs)"
  proof
    fix i
    from Cons.prems have "\<not> starts_with_marker (drop (Suc i) (c # cs))" by blast
    then show "\<not> starts_with_marker (drop i cs)" by simp
  qed
  with Cons.IH here show ?case by simp
qed

text \<open>
  Without the marker anywhere in the response, the subject is the default and the body
  is the whole response, not trimmed.
\<close>

theorem parse_without_marker:
  assumes "\<forall>i. \<not> starts_with_marker (drop i content)"
  shows "parseGeneratedContent content = \<lparr>subject = ''Job Application'', body = content\<rparr>"
  using assms by (simp add: parseGeneratedContent_def subjectMatch_no_marker bodyMatch_no_marker)

theorem parse_without_marker_witness:
  "parseGeneratedContent ''Hello'' = \<lparr>subject = ''Job Application'', body = ''Hello''\<rparr>"
proof -
  have "\<not> starts_with_marker (drop i ''Hello'')" for i
  proof
    assume "starts_with_marker (drop i ''Hello'')"
    then have "length (take 8 (drop i ''Hello'')) = length ''SUBJECT:''"
      unfolding starts_with_marker_def by (rule arg_cong)
    then show False by simp
  qed
  then have "\<forall>i. \<not> starts_with_marker (drop i ''Hello'')" by blast
  from parse_without_marker [OF this] show ?thesis .
qed

lemma rest_of_line_plain:
  "\<forall>c\<in>set line. \<not> is_line_terminator c \<Longrightarrow>
   rest_of_line (line @ LF # rest) = Some (line, rest)"
  by (induction line) (auto simp: LF_def is_line_terminator_def)

lemma rest_of_line_end:
  "\<forall>c\<in>set line. \<not> is_line_terminator c \<Longrightarrow> rest_of_line line = Some (line, [])"
  by (induction line) (auto simp: is_line_terminator_def)

lemma spaces_then_line_plain:
  assumes "\<forall>c\<in>set sp. is_white_space c"
    and "subj \<noteq> []" and "\<not> is_white_space (hd subj)"
    and "\<forall>c\<in>set subj. \<not> is_line_terminator c"
  shows "spaces_then_line (sp @ subj @ LF # rest) = Some subj"
  using assms(1)
proof (induction sp)
  case Nil
  from assms(2) obtain h t where subj: "subj = h # t" by (cases subj) auto
  with assms(3) have "\<not> is_white_space h" by simp
  then have "spaces_then_line (subj @ LF # rest) = map_option fst (rest_of_line (subj @ LF # rest))"
    by (simp add: subj)
  with rest_of_line_plain [OF assms(4)] show ?case by simp
next
  case (Cons c sp)
  then show ?case by simp
qed

lemma spaces_then_line_end:
  assumes "\<forall>c\<in>set sp. is_white_space c"
    and "subj \<noteq> []" and "\<not> is_white_space (hd subj)"
    and "\<forall>c\<in>set subj. \<not> is_line_terminator c"
  shows "spaces_then_line (sp @ subj) = Some subj"
  using assms(1)
proof (induction sp)
  case Nil
  from assms(2) obtain h t where subj: "subj = h # t" by (cases subj) auto
  with assms(3) have "\<not> is_white_space h" by simp
  then have "spaces_then_line subj = map_option fst (rest_of_line subj)"
    by (simp add: subj)
  with rest_of_line_end [OF assms(4)] show ?case by simp
next
  case (Cons c sp)
  then show ?case by simp
qed

lemma subjectMatch_skip:
  "(\<forall>i<length pre. \<not> starts_with_marker (drop i (pre @ m))) \<Longrightarrow> m \<noteq> [] \<Longrightarrow>
   subjectMatch (pre @ m) = subjectMatch m"
proof (induction pre)
  case Nil
  then show ?case by simp
next
  case (Cons c cs)
  from Cons.prems(1) have here: "\<not> starts_with_marker ((c # cs) @ m)" by fastforce
  have "\<forall>i<length cs. \<not> starts_with_marker (drop i (cs @ m))"
  proof (intro allI impI)
    fix i assume "i < length cs"
    then have "Suc i < length (c # cs)" by simp
    with Cons.prems(1) have "\<not> starts_with_marker (drop (Suc i) ((c # cs) @ m))" by blast
    then show "\<not> starts_with_marker (drop i (cs @ m))" by simp
  qed
  with Cons.IH Cons.prems(2) here show ?case by simp
qed

lemma bodyMatch_skip:
  "(\<forall>i<length pre. \<not> starts_with_marker (drop i (pre @ m))) \<Longrightarrow> m \<noteq> [] \<Longrightarrow>
   bodyMatch (pre @ m) = bodyMatch m"
proof (induction pre)
  case Nil
  then show ?case by simp
next
  case (Cons c cs)
  from Cons.prems(1) have here: "\<not> starts_with_marker ((c # cs) @ m)" by fastforce
  have "\<forall>i<length cs. \<not> starts_with_marker (drop i (cs @ m))"
  proof (intro allI impI)
    fix i assume "i < length cs"
    then have "Suc i < length (c # cs)" by simp
    with Cons.prems(1) have "\<not> starts_with_marker (drop (Suc i) ((c # cs) @ m))" by blast
    then show "\<not> starts_with_marker (drop i (cs @ m))" by simp
  qed
  with Cons.IH Cons.prems(2) here show ?case by simp
qed

text \<open>
  The response the prompt asks for: some text without the marker, the marker, blanks,
  a subject that starts at a visible character and holds no line terminator, then the
  end of the line or of the response. The subject is the trimmed rest of the marker's
  line and the body the trimmed text after that line.
\<close>

theorem parse_marker_line:
  assumes "content = pre @ ''SUBJECT:'' @ sp @ subj @ tail"
    and "\<forall>i<length pre. \<not> starts_with_marker (drop i content)"
    and "\<forall>c\<in>set sp. is_white_space c \<and> \<not> is_line_terminator c"
    and "subj \<noteq> []" and "\<not> is_white_space (hd subj)"
    and "\<forall>c\<in>set subj. \<not> is_line_terminator c"
    and "tail = [] \<and> rest = [] \<or> tail = LF # rest"
  shows "parseGeneratedContent content = \<lparr>subject = trim subj, body = trim rest\<rparr>"
proof -
  let ?m = "''SUBJECT:'' @ sp @ subj @ tail"
  have m: "?m \<noteq> []" by simp
  have marker: "starts_with_marker ?m" by (simp add: starts_with_marker_def)
  have after: "drop 8 ?m = sp @ subj @ tail" by simp
  obtain c cs where cons: "?m = c # cs" by (cases ?m) auto
  have sp_ws: "\<forall>c\<in>set sp. is_white_space c" using assms(3) by blast
  have line: "\<forall>c\<in>set (sp @ subj). \<not> is_line_terminator c" using assms(3,6) by auto
  have subj_match: "spaces_then_line (sp @ subj @ tail) = Some subj"
    using assms(7) spaces_then_line_plain [OF sp_ws assms(4,5,6), of rest]
      spaces_then_line_end [OF sp_ws assms(4,5,6)] by auto
  have body_match: "rest_of_line (sp @ subj @ tail) = Some (sp @ subj, rest)"
    using assms(7) rest_of_line_plain [OF line, of rest] rest_of_line_end [OF line] by auto
  have s1: "subjectMatch ?m = Some subj"
    using marker after subj_match unfolding cons by simp
  have b1: "bodyMatch ?m = Some rest"
    using marker after body_match unfolding cons by simp
  from assms(2) have skip: "\<forall>i<length pre. \<not> starts_with_marker (drop i (pre @ ?m))"
    unfolding assms(1) .
  have "subjectMatch content = Some subj"
    unfolding assms(1) using subjectMatch_skip [OF skip m] s1 by simp
  moreover have "bodyMatch content = Some rest"
    unfolding assms(1) using bodyMatch_skip [OF skip m] b1 by simp
  ultimately show ?thesis by (simp add: parseGeneratedContent_def)
qed

theorem parse_marker_line_witness:
  "parseGeneratedContent (''SUBJECT: Hi'' @ [LF] @ ''Body'') = \<lparr>subject = ''Hi'', body = ''Body''\<rparr>"
proof -
  have shape: "''SUBJECT: Hi'' @ [LF] @ ''Body'' = [] @ ''SUBJECT:'' @ '' '' @ ''Hi'' @ (LF # ''Body'')"
    by simp
  have "parseGeneratedContent (''SUBJECT: Hi'' @ [LF] @ ''Body'') =
          \<lparr>subject = trim ''Hi'', body = trim ''Body''\<rparr>"
    by (rule parse_marker_line [OF shape, of "''Body''"])
       (simp_all add: is_white_space_def is_line_terminator_def)
  then show ?thesis by (simp add: trim_def is_white_space_def)
qed

section \<open>The orchestrators on the example data\<close>

lemmas ex_orchestrator_defs = ex_config_def ex_hunter_def ex_env_ok_def ex_orchestrator_env_def
  ex_orchestrator_store_def ex_main_env_def ex_workflow_env_def ex_company_def


lemma ex_selected:
  "select_daily_companies 2 (companies ex_orchestrator_store) =
     [ex_company 2 ''B'' 1 2 True ''pending'', ex_company 4 ''D'' 1 4 True ''pending'']"
  by (simp add: select_daily_companies_def ex_orchestrator_store_def ex_company_def
      ready_for_contact_def)

lemma ex_parse: "parseGeneratedContent (''SUBJECT: Hi'' @ [LF] @ ''Body'') = \<lparr>subject = ''Hi'', body = ''Body''\<rparr>"
  by (simp add: parseGeneratedContent_def starts_with_marker_def is_white_space_def
      is_line_terminator_def trim_def LF_def)

lemma ex_main_loop:
  "main_loop ex_config ex_orchestrator_env 0 0
     [ex_company 2 ''B'' 1 2 True ''pending'', ex_company 4 ''D'' 1 4 True ''pending''] []
     ex_orchestrator_store =
   ([(''B'', Failed (ExternalServiceFailure ''down'')), (''D'', Processed)],
    ex_orchestrator_store
      \<lparr>schedules := [\<lparr>scheduled_date = 0, emails_limit = 5, emails_sent = 4, is_completed = False\<rparr>],
       companies := [ex_company 1 ''A'' 3 1 True ''pending'',
                   ex_company 2 ''B'' 1 2 True ''pending'',
                   ex_company 3 ''C'' 2 3 True ''pending'',
                   ex_company 4 ''D'' 1 4 True ''contacted'',
                   ex_company 5 ''E'' 3 5 True ''pending'',
                   ex_company 6 ''F'' 1 6 True ''contacted''],
       emails := [sent_email_row ex_env_ok (ex_company 4 ''D'' 1 4 True ''pending'') ''Hi'' ''Body''
                    (Some ''m1'') ''default'']\<rparr>)"
  by (simp add: process_company_def verification_gate_def contact_company_def
      generateEmailContent_def sendEmail_def createEmail_def markCompanyAsContacted_def
      incrementEmailsSent_def getEmailSchedule_def select_schedule_def update_schedule_def
      update_companies_def falsy_def Let_def LF_def
      parseGeneratedContent_def starts_with_marker_def is_white_space_def
      is_line_terminator_def trim_def
      ex_config_def ex_env_ok_def ex_orchestrator_env_def ex_orchestrator_store_def ex_company_def
      sent_email_row_def)

section \<open>Selection, failures and the verification gate\<close>

lemma main_loop_turns:
  "\<exists>console st'. main_loop cfg env today i cs acc st = (acc @ console, st') \<and>
     map fst console = map c_name cs"
  using main_loop_frame [of cfg env today i cs acc st] by blast

lemma main_returns_nothing: "fst (main cfg menv today st) = Undefined"
  by (simp add: main_def Let_def split: prod.splits sum.splits)

text \<open>
  Claim C2, as the code has it. The daily selection holds
  \<open>min quota (number of verified pending companies)\<close> companies, all of them verified
  and pending, in ascending order of priority, and no company left out has a smaller
  priority than a selected one; the order among equal priorities is the store's. Both
  loops give every selected company its turn (the workflow's loop all of them whenever
  their number is within the schedule's remaining quota), and a company row whose id is
  not among the selected is the same row afterwards.
\<close>

theorem daily_selection_by_priority:
  assumes "selected = select_daily_companies quota (companies st)"
  shows "getCompaniesForDailyEmails None quota (companies st) = Inr selected \<and>
         length selected = min (nat quota) (length (filter ready_for_contact (companies st))) \<and>
         (\<forall>c\<in>set selected. c \<in> set (companies st) \<and> c_email_verified c \<and> c_status c = ''pending'') \<and>
         sorted (map c_priority selected) \<and>
         (\<forall>c\<in>set (companies st). ready_for_contact c \<and> c \<notin> set selected \<longrightarrow>
            (\<forall>s\<in>set selected. c_priority s \<le> c_priority c)) \<and>
         (\<exists>console st'.
            main_loop cfg env today 0 selected [] st = (console, st') \<and>
            map fst console = map c_name selected \<and>
            length (companies st') = length (companies st) \<and>
            (\<forall>k<length (companies st). c_id (companies st ! k) \<notin> c_id ` set selected \<longrightarrow>
               companies st' ! k = companies st ! k)) \<and>
         (\<exists>results sched' st'.
            workflow_loop wenv template 0 selected [] sched st = (results, sched', st') \<and>
            length results \<le> length selected \<and>
            (int (length selected) \<le> emails_limit sched - emails_sent sched \<longrightarrow>
               length results = length selected) \<and>
            length (companies st') = length (companies st) \<and>
            (\<forall>k<length (companies st). c_id (companies st ! k) \<notin> c_id ` set selected \<longrightarrow>
               companies st' ! k = companies st ! k))"
proof -
  have query: "getCompaniesForDailyEmails None quota (companies st) = Inr selected"
    by (simp add: getCompaniesForDailyEmails_def assms)
  have len: "length selected = min (nat quota) (length (filter ready_for_contact (companies st)))"
    unfolding assms by (rule select_daily_length)
  have ready: "\<forall>c\<in>set selected. c \<in> set (companies st) \<and> c_email_verified c \<and> c_status c = ''pending''"
    unfolding assms using select_daily_subset by blast
  have sorted: "sorted (map c_priority selected)"
    unfolding assms by (rule select_daily_sorted)
  have best: "\<forall>c\<in>set (companies st). ready_for_contact c \<and> c \<notin> set selected \<longrightarrow>
            (\<forall>s\<in>set selected. c_priority s \<le> c_priority c)"
    unfolding assms using select_daily_best by blast
  obtain console st1 where
    m: "main_loop cfg env today 0 selected [] st = ([] @ console, st1)"
       "map fst console = map c_name selected"
       "map c_id (companies st1) = map c_id (companies st)"
       "\<forall>k<length (companies st). c_id (companies st ! k) \<notin> c_id ` set selected \<longrightarrow>
          companies st1 ! k = companies st ! k"
    using main_loop_frame [of cfg env today 0 selected "[]" st] by blast
  from m(3) have mlen: "length (companies st1) = length (companies st)" by (metis length_map)
  have main_part: "\<exists>console st'.
            main_loop cfg env today 0 selected [] st = (console, st') \<and>
            map fst console = map c_name selected \<and>
            length (companies st') = length (companies st) \<and>
            (\<forall>k<length (companies st). c_id (companies st ! k) \<notin> c_id ` set selected \<longrightarrow>
               companies st' ! k = companies st ! k)"
    using m(1,2,4) mlen by (intro exI [of _ console] exI [of _ st1]) simp
  obtain rs sched2 st2 where
    w: "workflow_loop wenv template 0 selected [] sched st = ([] @ rs, sched2, st2)"
       "length rs \<le> length selected"
       "emails_limit sched2 = emails_limit sched"
       "emails_sent sched2 \<le> emails_sent sched + int (length rs)"
       "length rs < length selected \<longrightarrow> emails_limit sched2 \<le> emails_sent sched2"
       "map c_id (companies st2) = map c_id (companies st)"
       "\<forall>k<length (companies st). c_id (companies st ! k) \<notin> c_id ` set selected \<longrightarrow>
          companies st2 ! k = companies st ! k"
    using workflow_loop_entries [of wenv template 0 selected "[]" sched st] by blast
  from w(6) have wlen: "length (companies st2) = length (companies st)" by (metis length_map)
  have all: "int (length selected) \<le> emails_limit sched - emails_sent sched \<longrightarrow>
               length rs = length selected"
    using w(2,3,4,5) by linarith
  have workflow_part: "\<exists>results sched' st'.
            workflow_loop wenv template 0 selected [] sched st = (results, sched', st') \<and>
            length results \<le> length selected \<and>
            (int (length selected) \<le> emails_limit sched - emails_sent sched \<longrightarrow>
               length results = length selected) \<and>
            length (companies st') = length (companies st) \<and>
            (\<forall>k<length (companies st). c_id (companies st ! k) \<notin> c_id ` set selected \<longrightarrow>
               companies st' ! k = companies st ! k)"
    using w(1,2,7) all wlen by (intro exI [of _ rs] exI [of _ sched2] exI [of _ st2]) simp
  from query len ready sorted best main_part workflow_part show ?thesis by blast
qed

text \<open>
  Claim C2 as stated fails: two verified pending companies of equal priority, the one
  created later held first by the store; with limit 1 the query returns the later one.
\<close>

theorem daily_selection_ties_counterexample:
  "c_priority (ex_company 1 ''Early'' 1 10 True ''pending'') =
     c_priority (ex_company 2 ''Late'' 1 20 True ''pending'') \<and>
   c_created_at (ex_company 1 ''Early'' 1 10 True ''pending'') <
     c_created_at (ex_company 2 ''Late'' 1 20 True ''pending'') \<and>
   getCompaniesForDailyEmails None 1
     [ex_company 2 ''Late'' 1 20 True ''pending'', ex_company 1 ''Early'' 1 10 True ''pending''] =
     Inr [ex_company 2 ''Late'' 1 20 True ''pending'']"
  by (simp add: getCompaniesForDailyEmails_def select_daily_companies_def ready_for_contact_def
      ex_company_def)

theorem daily_selection_by_priority_witness:
  "length (filter ready_for_contact (companies ex_orchestrator_store)) = 5 \<and>
   select_daily_companies 2 (companies ex_orchestrator_store) =
     [ex_company 2 ''B'' 1 2 True ''pending'', ex_company 4 ''D'' 1 4 True ''pending''] \<and>
   map fst (fst (main_loop ex_config ex_orchestrator_env 0 0
      (select_daily_companies 2 (companies ex_orchestrator_store)) [] ex_orchestrator_store)) =
     [''B'', ''D''] \<and>
   map c_status (companies (snd (main_loop ex_config ex_orchestrator_env 0 0
      (select_daily_companies 2 (companies ex_orchestrator_store)) [] ex_orchestrator_store))) =
     [''pending'', ''pending'', ''pending'', ''contacted'', ''pending'', ''contacted'']"
proof -
  let ?sel = "select_daily_companies 2 (companies ex_orchestrator_store)"
  have five: "length (filter ready_for_contact (companies ex_orchestrator_store)) = 5"
    by (simp add: ex_orchestrator_store_def ex_company_def ready_for_contact_def)
  from daily_selection_by_priority [of ?sel 2 ex_orchestrator_store ex_config
      ex_orchestrator_env 0, OF refl]
  obtain console st' where
    run: "main_loop ex_config ex_orchestrator_env 0 0 ?sel [] ex_orchestrator_store = (console, st')"
    and names: "map fst console = map c_name ?sel"
    by blast
  from names run have "map fst (fst (main_loop ex_config ex_orchestrator_env 0 0 ?sel []
      ex_orchestrator_store)) = [''B'', ''D'']"
    by (simp add: ex_selected ex_company_def)
  moreover have "map c_status (companies (snd (main_loop ex_config ex_orchestrator_env 0 0 ?sel []
      ex_orchestrator_store))) =
     [''pending'', ''pending'', ''pending'', ''contacted'', ''pending'', ''contacted'']"
    unfolding ex_selected ex_main_loop by (simp add: ex_company_def)
  ultimately show ?thesis using five ex_selected by blast
qed

lemma workflow_loop_threw:
  "workflow_company (wenv i) template c sched st = (Inl e, st1) \<Longrightarrow>
   workflow_loop wenv template i (c # rest) results sched st =
     workflow_loop wenv template (Suc i) rest (results @ [error_entry c e]) sched st1"
  by simp

lemma main_loop_failed:
  "process_company cfg (env i) today c st = (Failed e, st1) \<Longrightarrow>
   main_loop cfg env today i (c # rest) console st =
     main_loop cfg env today (Suc i) rest (console @ [(c_name c, Failed e)]) st1"
  by simp

lemma execute_with_schedule_returns:
  assumes "wf_companies_select xenv = None" and "wf_templates_select xenv = None"
    and "\<not> is_completed sched" and "emails_sent sched < emails_limit sched"
    and "selected = select_daily_companies (emails_limit sched - emails_sent sched) (companies st)"
    and "selected \<noteq> []"
  shows "\<exists>results sched' st'.
           execute_with_schedule xenv sched st =
             (Returned \<lparr>w_success = True, w_message = Some ''Processed companies'',
                        w_error = None, w_results = Some results, w_schedule = Some sched'\<rparr>, st') \<and>
           length results = length selected \<and>
           (\<forall>j<length selected.
              cr_company (results ! j) = c_name (selected ! j) \<and>
              (cr_status (results ! j) = ''sent'' \<or> cr_status (results ! j) = ''error'')) \<and>
           (select_schedule (schedules st) (scheduled_date sched) = Some sched \<longrightarrow>
              select_schedule (schedules st') (scheduled_date sched) = Some sched')"
proof -
  define template where "template =
    (case latest_active_template (email_templates st) of
       None \<Rightarrow> ''Default Template'' | Some t \<Rightarrow> t_name t)"
  obtain rs sched' st' where
    w: "workflow_loop (wf_per_company xenv) template 0 selected [] sched st = ([] @ rs, sched', st')"
       "length rs \<le> length selected"
       "\<forall>j<length rs. cr_company (rs ! j) = c_name (selected ! j) \<and>
          (cr_status (rs ! j) = ''sent'' \<or> cr_status (rs ! j) = ''error'')"
       "emails_limit sched' = emails_limit sched"
       "emails_sent sched' \<le> emails_sent sched + int (length rs)"
       "length rs < length selected \<longrightarrow> emails_limit sched' \<le> emails_sent sched'"
       "select_schedule (schedules st) (scheduled_date sched) = Some sched \<longrightarrow>
          select_schedule (schedules st') (scheduled_date sched) = Some sched'"
    using workflow_loop_entries [of "wf_per_company xenv" template 0 selected "[]" sched st]
    by blast
  have "length selected \<le> nat (emails_limit sched - emails_sent sched)"
    unfolding assms(5) by (simp add: select_daily_length)
  with assms(4) have "int (length selected) \<le> emails_limit sched - emails_sent sched"
    by linarith
  with w(2,4,5,6) have len: "length rs = length selected" by linarith
  have run: "execute_with_schedule xenv sched st =
     (Returned \<lparr>w_success = True, w_message = Some ''Processed companies'',
                w_error = None, w_results = Some rs, w_schedule = Some sched'\<rparr>, st')"
    using assms w(1)
    by (simp add: execute_with_schedule_def Let_def template_def [symmetric])
  from run len w(3,7) show ?thesis
    by (intro exI [of _ rs] exI [of _ sched'] exI [of _ st']) simp
qed

text \<open>
  Claim C5, as the code has it. In \<^verbatim>\<open>main\<close> every company of the list gets its turn and
  its console entry; a company whose processing threw is entered as failed and the loop
  goes on with the next one; \<^verbatim>\<open>main\<close> itself returns no value. In the daily workflow a
  company whose processing threw adds an error entry and the loop goes on with the
  next one; a run that reaches the loop returns one entry per selected company, in
  order, each "sent" or "error", together with the schedule it holds, which is the
  stored row of the day when it was so at the start.
\<close>

theorem company_failure_does_not_abort:
  "(\<exists>console st'.
      main_loop cfg env today i cs acc st = (acc @ console, st') \<and>
      map fst console = map c_name cs) \<and>
   (process_company cfg (env i) today c st = (Failed e, st1) \<longrightarrow>
      main_loop cfg env today i (c # rest) acc st =
        main_loop cfg env today (Suc i) rest (acc @ [(c_name c, Failed e)]) st1) \<and>
   fst (main cfg menv today st) = Undefined \<and>
   (workflow_company (wenv i) template c sched st = (Inl e, st1) \<longrightarrow>
      workflow_loop wenv template i (c # rest) results sched st =
        workflow_loop wenv template (Suc i) rest (results @ [error_entry c e]) sched st1) \<and>
   (wf_companies_select xenv = None \<and> wf_templates_select xenv = None \<and>
    \<not> is_completed sched \<and> emails_sent sched < emails_limit sched \<and>
    select_daily_companies (emails_limit sched - emails_sent sched) (companies st) \<noteq> [] \<longrightarrow>
      (\<exists>entries sched' st'.
         execute_with_schedule xenv sched st =
           (Returned \<lparr>w_success = True, w_message = Some ''Processed companies'',
                      w_error = None, w_results = Some entries, w_schedule = Some sched'\<rparr>, st') \<and>
         length entries =
           length (select_daily_companies (emails_limit sched - emails_sent sched) (companies st)) \<and>
         (\<forall>j<length entries.
            cr_company (entries ! j) =
              c_name (select_daily_companies (emails_limit sched - emails_sent sched)
                        (companies st) ! j) \<and>
            (cr_status (entries ! j) = ''sent'' \<or> cr_status (entries ! j) = ''error'')) \<and>
         (select_schedule (schedules st) (scheduled_date sched) = Some sched \<longrightarrow>
            select_schedule (schedules st') (scheduled_date sched) = Some sched')))"
proof -
  have exec: "\<exists>entries sched' st'.
         execute_with_schedule xenv sched st =
           (Returned \<lparr>w_success = True, w_message = Some ''Processed companies'',
                      w_error = None, w_results = Some entries, w_schedule = Some sched'\<rparr>, st') \<and>
         length entries =
           length (select_daily_companies (emails_limit sched - emails_sent sched) (companies st)) \<and>
         (\<forall>j<length entries.
            cr_company (entries ! j) =
              c_name (select_daily_companies (emails_limit sched - emails_sent sched)
                        (companies st) ! j) \<and>
            (cr_status (entries ! j) = ''sent'' \<or> cr_status (entries ! j) = ''error'')) \<and>
         (select_schedule (schedules st) (scheduled_date sched) = Some sched \<longrightarrow>
            select_schedule (schedules st') (scheduled_date sched) = Some sched')"
    if "wf_companies_select xenv = None \<and> wf_templates_select xenv = None \<and>
        \<not> is_completed sched \<and> emails_sent sched < emails_limit sched \<and>
        select_daily_companies (emails_limit sched - emails_sent sched) (companies st) \<noteq> []"
  proof -
    from that execute_with_schedule_returns [of xenv sched _ st, OF _ _ _ _ refl]
    obtain results sched' st' where
      r: "execute_with_schedule xenv sched st =
             (Returned \<lparr>w_success = True, w_message = Some ''Processed companies'',
                        w_error = None, w_results = Some results, w_schedule = Some sched'\<rparr>, st')"
         "length results =
            length (select_daily_companies (emails_limit sched - emails_sent sched) (companies st))"
         "\<forall>j<length (select_daily_companies (emails_limit sched - emails_sent sched) (companies st)).
              cr_company (results ! j) =
                c_name (select_daily_companies (emails_limit sched - emails_sent sched)
                         (companies st) ! j) \<and>
              (cr_status (results ! j) = ''sent'' \<or> cr_status (results ! j) = ''error'')"
         "select_schedule (schedules st) (scheduled_date sched) = Some sched \<longrightarrow>
              select_schedule (schedules st') (scheduled_date sched) = Some sched'"
      by blast
    then show ?thesis
      by (intro exI [of _ results] exI [of _ sched'] exI [of _ st']) simp
  qed
  from main_loop_turns [of cfg env today i cs acc st]
    main_loop_failed [of cfg env i today c st e st1 rest acc]
    main_returns_nothing [of cfg menv today st]
    workflow_loop_threw [of wenv i template c sched st e st1 rest results]
    exec
  show ?thesis by blast
qed

lemma ex_main_run:
  "main ex_config ex_main_env 0 ex_orchestrator_store =
     (Undefined,
      main_loop ex_config ex_orchestrator_env 0 0
        [ex_company 2 ''B'' 1 2 True ''pending'', ex_company 4 ''D'' 1 4 True ''pending''] []
        ex_orchestrator_store)"
proof -
  have quota: "getRemainingEmailQuota None None None default_config 0
                 (schedules ex_orchestrator_store) = (Inr 2, schedules ex_orchestrator_store)"
    by (simp add: getRemainingEmailQuota_def getEmailSchedule_def select_schedule_def
        ex_orchestrator_store_def)
  have same: "ex_orchestrator_store\<lparr>schedules := schedules ex_orchestrator_store\<rparr> =
              ex_orchestrator_store" by simp
  have nonempty: "select_daily_companies 2 (companies ex_orchestrator_store) \<noteq> []"
    by (simp add: ex_selected)
  show ?thesis
    using nonempty
    by (simp add: main_def ex_main_env_def ex_config_def quota same Let_def
        getCompaniesForDailyEmails_def ex_selected split: prod.splits)
qed

text \<open>
  Claim C5 as stated fails for \<^verbatim>\<open>main\<close>: a run in which the first company fails and the
  second goes through returns \<^verbatim>\<open>undefined\<close>; the failure is on the console only.
\<close>

theorem main_returns_no_outcome_list_counterexample:
  "fst (main ex_config ex_main_env 0 ex_orchestrator_store) = Undefined \<and>
   fst (snd (main ex_config ex_main_env 0 ex_orchestrator_store)) =
     [(''B'', Failed (ExternalServiceFailure ''down'')), (''D'', Processed)]"
  by (simp add: ex_main_run ex_main_loop del: main_loop.simps)

lemma ex_workflow_loop:
  "workflow_loop ex_orchestrator_env ''Default Template'' 0
     [ex_company 2 ''B'' 1 2 True ''pending'', ex_company 4 ''D'' 1 4 True ''pending''] []
     \<lparr>scheduled_date = 0, emails_limit = 5, emails_sent = 3, is_completed = False\<rparr>
     ex_orchestrator_store =
   ([error_entry (ex_company 2 ''B'' 1 2 True ''pending'') (ExternalServiceFailure ''down''),
     sent_entry (ex_company 4 ''D'' 1 4 True ''pending'') ''Hi'' 100],
    \<lparr>scheduled_date = 0, emails_limit = 5, emails_sent = 4, is_completed = False\<rparr>,
    ex_orchestrator_store
      \<lparr>schedules := [\<lparr>scheduled_date = 0, emails_limit = 5, emails_sent = 4, is_completed = False\<rparr>],
       companies := [ex_company 1 ''A'' 3 1 True ''pending'',
                   ex_company 2 ''B'' 1 2 True ''pending'',
                   ex_company 3 ''C'' 2 3 True ''pending'',
                   ex_company 4 ''D'' 1 4 True ''contacted'',
                   ex_company 5 ''E'' 3 5 True ''pending'',
                   ex_company 6 ''F'' 1 6 True ''contacted''],
       emails := [sent_email_row ex_env_ok (ex_company 4 ''D'' 1 4 True ''pending'') ''Hi'' ''Body''
                    (Some ''m1'') ''Default Template'']\<rparr>)"
  by (simp add: workflow_company_def workflow_generate_def workflow_send_def createEmail_def
      update_schedule_def update_companies_def falsy_def Let_def LF_def
      parseGeneratedContent_def starts_with_marker_def is_white_space_def
      is_line_terminator_def trim_def
      ex_env_ok_def ex_orchestrator_env_def ex_orchestrator_store_def ex_company_def
      sent_email_row_def sent_entry_def error_entry_def)

lemma ex_execute_run:
  "fst (execute ex_workflow_env 0 ex_orchestrator_store) =
     Returned \<lparr>w_success = True, w_message = Some ''Processed companies'', w_error = None,
       w_results = Some
         [error_entry (ex_company 2 ''B'' 1 2 True ''pending'') (ExternalServiceFailure ''down''),
          sent_entry (ex_company 4 ''D'' 1 4 True ''pending'') ''Hi'' 100],
       w_schedule = Some \<lparr>scheduled_date = 0, emails_limit = 5, emails_sent = 4,
                          is_completed = False\<rparr>\<rparr>"
proof -
  have sel: "select_schedule (schedules ex_orchestrator_store) 0 =
       Some \<lparr>scheduled_date = 0, emails_limit = 5, emails_sent = 3, is_completed = False\<rparr>"
    by (simp add: select_schedule_def ex_orchestrator_store_def)
  have tmpl: "latest_active_template (email_templates ex_orchestrator_store) = None"
    by (simp add: ex_orchestrator_store_def)
  have nonempty: "select_daily_companies 2 (companies ex_orchestrator_store) \<noteq> []"
    by (simp add: ex_selected)
  show ?thesis
    using nonempty
    by (simp add: execute_def execute_with_schedule_def ex_workflow_env_def sel tmpl Let_def
        ex_selected ex_workflow_loop del: workflow_loop.simps)
qed

theorem company_failure_does_not_abort_witness:
  "process_company ex_config (ex_orchestrator_env 0) 0 (ex_company 2 ''B'' 1 2 True ''pending'')
     ex_orchestrator_store = (Failed (ExternalServiceFailure ''down''), ex_orchestrator_store) \<and>
   fst (main_loop ex_config ex_orchestrator_env 0 0
     [ex_company 2 ''B'' 1 2 True ''pending'', ex_company 4 ''D'' 1 4 True ''pending''] []
     ex_orchestrator_store) =
     [(''B'', Failed (ExternalServiceFailure ''down'')), (''D'', Processed)] \<and>
   main_loop ex_config ex_orchestrator_env 0 0
     [ex_company 2 ''B'' 1 2 True ''pending'', ex_company 4 ''D'' 1 4 True ''pending''] []
     ex_orchestrator_store =
   main_loop ex_config ex_orchestrator_env 0 1
     [ex_company 4 ''D'' 1 4 True ''pending'']
     [(''B'', Failed (ExternalServiceFailure ''down''))] ex_orchestrator_store \<and>
   fst (execute ex_workflow_env 0 ex_orchestrator_store) =
     Returned \<lparr>w_success = True, w_message = Some ''Processed companies'', w_error = None,
       w_results = Some
         [error_entry (ex_company 2 ''B'' 1 2 True ''pending'') (ExternalServiceFailure ''down''),
          sent_entry (ex_company 4 ''D'' 1 4 True ''pending'') ''Hi'' 100],
       w_schedule = Some \<lparr>scheduled_date = 0, emails_limit = 5, emails_sent = 4,
                          is_completed = False\<rparr>\<rparr>"
proof -
  let ?b = "ex_company 2 ''B'' 1 2 True ''pending''"
  let ?d = "ex_company 4 ''D'' 1 4 True ''pending''"
  have failed: "process_company ex_config (ex_orchestrator_env 0) 0 ?b ex_orchestrator_store =
      (Failed (ExternalServiceFailure ''down''), ex_orchestrator_store)"
    by (simp add: process_company_def verification_gate_def contact_company_def
        generateEmailContent_def sendEmail_def falsy_def
        ex_config_def ex_env_ok_def ex_orchestrator_env_def ex_company_def)
  from company_failure_does_not_abort [of ex_config ex_orchestrator_env 0 0 "[?b, ?d]" "[]"
      ex_orchestrator_store ?b "ExternalServiceFailure ''down''" ex_orchestrator_store "[?d]"]
    failed
  have continues: "main_loop ex_config ex_orchestrator_env 0 0 [?b, ?d] [] ex_orchestrator_store =
      main_loop ex_config ex_orchestrator_env 0 (Suc 0) [?d]
        ([] @ [(c_name ?b, Failed (ExternalServiceFailure ''down''))]) ex_orchestrator_store"
    by blast
  have name: "c_name ?b = ''B''" by (simp add: ex_company_def)
  from continues have continues':
    "main_loop ex_config ex_orchestrator_env 0 0 [?b, ?d] [] ex_orchestrator_store =
      main_loop ex_config ex_orchestrator_env 0 1 [?d]
        [(''B'', Failed (ExternalServiceFailure ''down''))] ex_orchestrator_store"
    by (simp only: name append_Nil One_nat_def)
  have console: "fst (main_loop ex_config ex_orchestrator_env 0 0 [?b, ?d] [] ex_orchestrator_store) =
     [(''B'', Failed (ExternalServiceFailure ''down'')), (''D'', Processed)]"
    by (simp only: ex_main_loop fst_conv)
  from failed console continues' ex_execute_run show ?thesis by blast
qed

lemma verification_gate_verified:
  "c_email_verified company \<Longrightarrow> verification_gate cfg env company = Inr (Inr company)"
  by (simp add: verification_gate_def)

lemma contact_company_verifier:
  "contact_company cfg (env\<lparr>env_verify := response\<rparr>) today company st =
   contact_company cfg env today company st"
  by (simp add: contact_company_def sent_email_row_def cong: sum.case_cong prod.case_cong)

lemma process_company_verified:
  assumes "c_email_verified company"
  shows "process_company cfg (env\<lparr>env_verify := response\<rparr>) today company st =
           process_company cfg env today company st"
    and "fst (process_company cfg env today company st) \<noteq> SkippedInvalid"
  using assms
  by (simp_all add: process_company_def verification_gate_verified contact_company_verifier
      split: prod.splits sum.splits)

lemma main_loop_verified:
  assumes "\<forall>c\<in>set cs. c_email_verified c"
  shows "main_loop cfg (\<lambda>i. (env i)\<lparr>env_verify := response i\<rparr>) today i cs acc st =
           main_loop cfg env today i cs acc st \<and>
         (\<exists>console st'. main_loop cfg env today i cs acc st = (acc @ console, st') \<and>
            (\<forall>entry\<in>set console. snd entry \<noteq> SkippedInvalid))"
  using assms
proof (induction cs arbitrary: i acc st)
  case Nil
  then show ?case by simp
next
  case (Cons c rest)
  from Cons.prems have c: "c_email_verified c" and rest: "\<forall>c\<in>set rest. c_email_verified c"
    by simp_all
  obtain out st1 where step: "process_company cfg (env i) today c st = (out, st1)"
    by (cases "process_company cfg (env i) today c st")
  from process_company_verified(1) [OF c, where cfg = cfg and env = "env i" and
      response = "response i" and today = today and st = st] step
  have step': "process_company cfg ((env i)\<lparr>env_verify := response i\<rparr>) today c st = (out, st1)"
    by simp
  from process_company_verified(2) [OF c, where cfg = cfg and env = "env i" and
      today = today and st = st] step
  have out: "out \<noteq> SkippedInvalid" by simp
  from Cons.IH [OF rest, of "Suc i" "acc @ [(c_name c, out)]" st1] obtain console st' where
    same: "main_loop cfg (\<lambda>i. (env i)\<lparr>env_verify := response i\<rparr>) today (Suc i) rest
             (acc @ [(c_name c, out)]) st1 =
           main_loop cfg env today (Suc i) rest (acc @ [(c_name c, out)]) st1" and
    run: "main_loop cfg env today (Suc i) rest (acc @ [(c_name c, out)]) st1 =
            ((acc @ [(c_name c, out)]) @ console, st')" and
    entries: "\<forall>entry\<in>set console. snd entry \<noteq> SkippedInvalid"
    by blast
  have indep: "main_loop cfg (\<lambda>i. (env i)\<lparr>env_verify := response i\<rparr>) today i (c # rest) acc st =
        main_loop cfg env today i (c # rest) acc st"
    using step step' same by simp
  have whole: "main_loop cfg env today i (c # rest) acc st =
        (acc @ ((c_name c, out) # console), st')"
    using step run by simp
  from entries out have "\<forall>entry\<in>set ((c_name c, out) # console). snd entry \<noteq> SkippedInvalid"
    by simp
  with indep whole show ?case by blast
qed

text \<open>
  The verification block on a company whose flag is false (a company that the daily
  selection does not return): with an address on file or one discovered, and any status
  other than \<^verbatim>\<open>valid\<close> from the service, the turn ends as skipped and the store is as it
  was.
\<close>

lemma unverified_company_skipped:
  assumes "\<not> falsy (hunter_api_key cfg)" and "env_verify env = HttpOk d"
    and "hunter_status d \<noteq> Some ''valid''" and "\<not> c_email_verified company"
    and "\<not> falsy (c_contact_email company) \<or>
         (c_website company \<noteq> None \<and> (\<exists>found. env_find env = Inr (Some found)))"
  shows "process_company cfg env today company st = (SkippedInvalid, st)"
  using assms
  by (auto simp: verifyEmail_def process_company_def verification_gate_def
      split: option.splits sum.splits)

text \<open>
  Claim C10, as the code has it. When the verification service answers, \<open>isValid\<close>
  holds exactly when its status field is the text \<^verbatim>\<open>valid\<close>. The loop of \<^verbatim>\<open>main\<close> asks
  the service only for a company whose \<^verbatim>\<open>email_verified\<close> flag is false
  (\<^verbatim>\<open>if (!company.email_verified)\<close>), and the daily selection returns only companies
  whose flag is true. So the turn of a selected company, and with it the whole run of
  \<^verbatim>\<open>main\<close>, is the same whatever the service would answer, and no turn of a run ends as
  skipped for an invalid address. (The daily workflow selects by the same flag and has
  no verification step.)
\<close>

theorem verified_company_not_checked:
  "(\<not> falsy (hunter_api_key cfg) \<longrightarrow>
      (\<exists>v. verifyEmail (hunter_api_key cfg) (HttpOk d) address = Inr v \<and>
           (isValid v \<longleftrightarrow> hunter_status d = Some ''valid'') \<and>
           v_status v = hunter_status d)) \<and>
   (\<forall>company\<in>set (select_daily_companies quota tbl).
      c_email_verified company \<and>
      process_company cfg (env\<lparr>env_verify := response\<rparr>) today company st =
        process_company cfg env today company st) \<and>
   main cfg (menv\<lparr>per_company := \<lambda>i. (per_company menv i)\<lparr>env_verify := responses i\<rparr>\<rparr>) today st0 =
     main cfg menv today st0 \<and>
   (\<forall>entry\<in>set (fst (snd (main cfg menv today st0))). snd entry \<noteq> SkippedInvalid)"
proof -
  have classify: "\<exists>v. verifyEmail (hunter_api_key cfg) (HttpOk d) address = Inr v \<and>
           (isValid v \<longleftrightarrow> hunter_status d = Some ''valid'') \<and>
           v_status v = hunter_status d"
    if "\<not> falsy (hunter_api_key cfg)"
    using that by (simp add: verifyEmail_def)
  have selected: "c_email_verified company \<and>
      process_company cfg (env\<lparr>env_verify := response\<rparr>) today company st =
        process_company cfg env today company st"
    if "company \<in> set (select_daily_companies quota tbl)" for company
  proof -
    from that select_daily_subset have "c_email_verified company" by blast
    with process_company_verified(1) show ?thesis by blast
  qed
  have loop: "main_loop cfg (\<lambda>i. (per_company menv i)\<lparr>env_verify := responses i\<rparr>) today 0
                (select_daily_companies q tbl1) [] st1 =
              main_loop cfg (per_company menv) today 0 (select_daily_companies q tbl1) [] st1 \<and>
         (\<forall>entry\<in>set (fst (main_loop cfg (per_company menv) today 0
                              (select_daily_companies q tbl1) [] st1)).
            snd entry \<noteq> SkippedInvalid)"
    for q tbl1 st1
  proof -
    have "\<forall>c\<in>set (select_daily_companies q tbl1). c_email_verified c"
      using select_daily_subset by blast
    from main_loop_verified [OF this, where cfg = cfg and env = "per_company menv" and
        response = responses and today = today and i = 0 and acc = "[]" and st = st1]
    show ?thesis by auto
  qed
  have run: "main cfg (menv\<lparr>per_company := \<lambda>i. (per_company menv i)\<lparr>env_verify := responses i\<rparr>\<rparr>)
               today st0 = main cfg menv today st0"
    using loop
    by (simp add: main_def getCompaniesForDailyEmails_def Let_def
        split: prod.splits sum.splits option.splits del: main_loop.simps)
  have entries: "\<forall>entry\<in>set (fst (snd (main cfg menv today st0))). snd entry \<noteq> SkippedInvalid"
    using loop
    by (auto simp: main_def getCompaniesForDailyEmails_def Let_def
        split: prod.splits sum.splits option.splits simp del: main_loop.simps)
  from classify selected run entries show ?thesis by blast
qed

text \<open>
  Claim C10 as stated fails: the service would classify the address of the companies B
  and D as \<^verbatim>\<open>accept_all\<close>, so \<open>isValid\<close> is false for it, and \<^verbatim>\<open>main\<close> does not skip them:
  both are sent their email.
\<close>

lemma ex_accept_all_loop:
  "main_loop ex_config ex_accept_all_env 0 0
     [ex_company 2 ''B'' 1 2 True ''pending'', ex_company 4 ''D'' 1 4 True ''pending''] []
     ex_orchestrator_store =
   ([(''B'', Processed), (''D'', Processed)],
    ex_orchestrator_store
      \<lparr>schedules := [\<lparr>scheduled_date = 0, emails_limit = 5, emails_sent = 5, is_completed = True\<rparr>],
       companies := [ex_company 1 ''A'' 3 1 True ''pending'',
                   ex_company 2 ''B'' 1 2 True ''contacted'',
                   ex_company 3 ''C'' 2 3 True ''pending'',
                   ex_company 4 ''D'' 1 4 True ''contacted'',
                   ex_company 5 ''E'' 3 5 True ''pending'',
                   ex_company 6 ''F'' 1 6 True ''contacted''],
       emails := [sent_email_row (ex_accept_all_env 0) (ex_company 2 ''B'' 1 2 True ''pending'')
                    ''Hi'' ''Body'' (Some ''m1'') ''default'',
                  sent_email_row (ex_accept_all_env 1) (ex_company 4 ''D'' 1 4 True ''pending'')
                    ''Hi'' ''Body'' (Some ''m1'') ''default'']\<rparr>)"
  by (simp add: process_company_def verification_gate_def contact_company_def
      generateEmailContent_def sendEmail_def createEmail_def markCompanyAsContacted_def
      incrementEmailsSent_def getEmailSchedule_def select_schedule_def update_schedule_def
      update_companies_def falsy_def Let_def LF_def
      parseGeneratedContent_def starts_with_marker_def is_white_space_def
      is_line_terminator_def trim_def
      ex_config_def ex_env_ok_def ex_accept_all_env_def ex_hunter_def ex_orchestrator_store_def
      ex_company_def sent_email_row_def)

lemma ex_accept_all_run:
  "main ex_config (ex_main_env\<lparr>per_company := ex_accept_all_env\<rparr>) 0 ex_orchestrator_store =
     (Undefined,
      main_loop ex_config ex_accept_all_env 0 0
        [ex_company 2 ''B'' 1 2 True ''pending'', ex_company 4 ''D'' 1 4 True ''pending''] []
        ex_orchestrator_store)"
proof -
  have quota: "getRemainingEmailQuota None None None default_config 0
                 (schedules ex_orchestrator_store) = (Inr 2, schedules ex_orchestrator_store)"
    by (simp add: getRemainingEmailQuota_def getEmailSchedule_def select_schedule_def
        ex_orchestrator_store_def)
  have same: "ex_orchestrator_store\<lparr>schedules := schedules ex_orchestrator_store\<rparr> =
              ex_orchestrator_store" by simp
  have nonempty: "select_daily_companies 2 (companies ex_orchestrator_store) \<noteq> []"
    by (simp add: ex_selected)
  show ?thesis
    using nonempty
    by (simp add: main_def ex_main_env_def ex_config_def quota same Let_def
        getCompaniesForDailyEmails_def ex_selected split: prod.splits)
qed

theorem accept_all_address_contacted_counterexample:
  "verifyEmail (hunter_api_key ex_config) (env_verify (ex_accept_all_env 0)) ''hr@example.com'' =
     Inr \<lparr>v_email = ''hr@example.com'', isValid = False, v_status = Some ''accept_all'',
          v_score = 50, isDisposable = False, isWebmail = False, isAcceptAll = False\<rparr> \<and>
   c_contact_email (ex_company 2 ''B'' 1 2 True ''pending'') = Some ''hr@example.com'' \<and>
   c_contact_email (ex_company 4 ''D'' 1 4 True ''pending'') = Some ''hr@example.com'' \<and>
   fst (snd (main ex_config (ex_main_env\<lparr>per_company := ex_accept_all_env\<rparr>) 0
               ex_orchestrator_store)) =
     [(''B'', Processed), (''D'', Processed)] \<and>
   map e_company_id
     (emails (snd (snd (main ex_config (ex_main_env\<lparr>per_company := ex_accept_all_env\<rparr>) 0
                          ex_orchestrator_store)))) =
     [Some 2, Some 4]"
proof -
  have classified:
    "verifyEmail (hunter_api_key ex_config) (env_verify (ex_accept_all_env 0)) ''hr@example.com'' =
     Inr \<lparr>v_email = ''hr@example.com'', isValid = False, v_status = Some ''accept_all'',
          v_score = 50, isDisposable = False, isWebmail = False, isAcceptAll = False\<rparr>"
    by (simp add: verifyEmail_def falsy_def ex_config_def ex_hunter_def ex_accept_all_env_def)
  have addresses:
    "c_contact_email (ex_company 2 ''B'' 1 2 True ''pending'') = Some ''hr@example.com''"
    "c_contact_email (ex_company 4 ''D'' 1 4 True ''pending'') = Some ''hr@example.com''"
    by (simp_all add: ex_company_def)
  have console: "fst (snd (main ex_config (ex_main_env\<lparr>per_company := ex_accept_all_env\<rparr>) 0
               ex_orchestrator_store)) = [(''B'', Processed), (''D'', Processed)]"
    by (simp only: ex_accept_all_run ex_accept_all_loop fst_conv snd_conv)
  have sent: "map e_company_id
     (emails (snd (snd (main ex_config (ex_main_env\<lparr>per_company := ex_accept_all_env\<rparr>) 0
                          ex_orchestrator_store)))) = [Some 2, Some 4]"
    by (simp only: ex_accept_all_run ex_accept_all_loop fst_conv snd_conv)
       (simp add: sent_email_row_def ex_company_def)
  from classified addresses console sent show ?thesis by blast
qed

theorem verified_company_not_checked_witness:
  "verifyEmail (hunter_api_key ex_config) (HttpOk (ex_hunter ''valid'')) ''hr@example.com'' =
     Inr \<lparr>v_email = ''hr@example.com'', isValid = True, v_status = Some ''valid'', v_score = 50,
          isDisposable = False, isWebmail = False, isAcceptAll = False\<rparr> \<and>
   ex_company 4 ''D'' 1 4 True ''pending'' \<in>
     set (select_daily_companies 2 (companies ex_orchestrator_store)) \<and>
   c_email_verified (ex_company 4 ''D'' 1 4 True ''pending'') \<and>
   process_company ex_config (ex_env_ok\<lparr>env_verify := HttpOk (ex_hunter ''accept_all'')\<rparr>) 0
     (ex_company 4 ''D'' 1 4 True ''pending'') ex_orchestrator_store =
     process_company ex_config ex_env_ok 0 (ex_company 4 ''D'' 1 4 True ''pending'')
       ex_orchestrator_store \<and>
   main ex_config
     (ex_main_env\<lparr>per_company :=
        \<lambda>i. (per_company ex_main_env i)\<lparr>env_verify := HttpOk (ex_hunter ''accept_all'')\<rparr>\<rparr>) 0
     ex_orchestrator_store =
     main ex_config ex_main_env 0 ex_orchestrator_store \<and>
   (''D'', Processed) \<in> set (fst (snd (main ex_config ex_main_env 0 ex_orchestrator_store))) \<and>
   snd (''D'', Processed) \<noteq> SkippedInvalid"
proof -
  let ?d = "ex_company 4 ''D'' 1 4 True ''pending''"
  note inst = verified_company_not_checked [where cfg = ex_config and
      d = "ex_hunter ''valid''" and address = "''hr@example.com''" and quota = 2 and
      tbl = "companies ex_orchestrator_store" and env = ex_env_ok and
      response = "HttpOk (ex_hunter ''accept_all'')" and today = 0 and
      st = ex_orchestrator_store and menv = ex_main_env and
      responses = "\<lambda>i. HttpOk (ex_hunter ''accept_all'')" and st0 = ex_orchestrator_store]
  have key: "\<not> falsy (hunter_api_key ex_config)" by (simp add: falsy_def ex_config_def)
  from inst [THEN conjunct1, rule_format, OF key]
  have valid: "verifyEmail (hunter_api_key ex_config) (HttpOk (ex_hunter ''valid'')) ''hr@example.com'' =
     Inr \<lparr>v_email = ''hr@example.com'', isValid = True, v_status = Some ''valid'', v_score = 50,
          isDisposable = False, isWebmail = False, isAcceptAll = False\<rparr>"
    by (simp add: verifyEmail_def falsy_def ex_config_def ex_hunter_def)
  have member: "?d \<in> set (select_daily_companies 2 (companies ex_orchestrator_store))"
    by (simp add: ex_selected)
  from inst [THEN conjunct2, THEN conjunct1, rule_format, OF member]
  have turn: "c_email_verified ?d \<and>
      process_company ex_config (ex_env_ok\<lparr>env_verify := HttpOk (ex_hunter ''accept_all'')\<rparr>) 0 ?d
        ex_orchestrator_store =
      process_company ex_config ex_env_ok 0 ?d ex_orchestrator_store" .
  from inst [THEN conjunct2, THEN conjunct2, THEN conjunct1]
  have run: "main ex_config
     (ex_main_env\<lparr>per_company :=
        \<lambda>i. (per_company ex_main_env i)\<lparr>env_verify := HttpOk (ex_hunter ''accept_all'')\<rparr>\<rparr>) 0
     ex_orchestrator_store = main ex_config ex_main_env 0 ex_orchestrator_store" .
  have entry: "(''D'', Processed) \<in> set (fst (snd (main ex_config ex_main_env 0 ex_orchestrator_store)))"
    by (simp only: ex_main_run ex_main_loop fst_conv snd_conv) simp
  from inst [THEN conjunct2, THEN conjunct2, THEN conjunct2, rule_format, OF entry]
  have kept: "snd (''D'', Processed) \<noteq> SkippedInvalid" .
  from valid member turn run entry kept show ?thesis by blast
qed

section \<open>The quota bound\<close>

lemma workflow_loop_within_limit:
  "emails_sent sched < emails_limit sched \<Longrightarrow>
   \<exists>results sched' st'.
     workflow_loop env template i cs acc sched st = (results, sched', st') \<and>
     emails_limit sched' = emails_limit sched \<and>
     emails_sent sched \<le> emails_sent sched' \<and>
     emails_sent sched' \<le> emails_limit sched'"
proof (induction cs arbitrary: i acc sched st)
  case Nil
  then show ?case by simp
next
  case (Cons c rest)
  obtain res st1 where step: "workflow_company (env i) template c sched st = (res, st1)"
    by (cases "workflow_company (env i) template c sched st")
  show ?case
  proof (cases res)
    case (Inl e)
    with step Cons.IH [OF Cons.prems, of "Suc i" "acc @ [error_entry c e]" st1] show ?thesis
      by simp
  next
    case (Inr p)
    obtain entry sched1 where p: "p = (entry, sched1)" by (cases p)
    with Inr step have went:
      "workflow_company (env i) template c sched st = (Inr (entry, sched1), st1)" by simp
    from workflow_company_sent [OF went] have
      s1: "emails_limit sched1 = emails_limit sched" "emails_sent sched1 = emails_sent sched + 1"
          "is_completed sched1 = (emails_limit sched \<le> emails_sent sched + 1)"
      by simp_all
    show ?thesis
    proof (cases "is_completed sched1")
      case True
      with went s1 Cons.prems show ?thesis by simp
    next
      case False
      with s1 have below: "emails_sent sched1 < emails_limit sched1" by simp
      from Cons.IH [OF below, of "Suc i" "acc @ [entry]" st1] obtain results sched' st' where
        "workflow_loop env template (Suc i) rest (acc @ [entry]) sched1 st1 = (results, sched', st')"
        "emails_limit sched' = emails_limit sched1" "emails_sent sched1 \<le> emails_sent sched'"
        "emails_sent sched' \<le> emails_limit sched'"
        by blast
      with went False s1 show ?thesis by simp
    qed
  qed
qed

text \<open>
  Claim C1. From a row with \<open>emails_sent = 0\<close>, after a run of \<open>length fs\<close> calls of
  \<^verbatim>\<open>incrementEmailsSent(d)\<close> that all returned, the row of \<open>d\<close> has
  \<open>emails_sent = length fs\<close>, an unchanged limit, and \<open>emails_sent \<le> emails_limit\<close>.
  After at least one call the bound needs nothing of the first row; a row that no
  call has touched yet satisfies it when its limit is not negative. Once
  \<open>emails_sent = emails_limit\<close>, the next call (its read answered by the store) throws
  "Email limit reached" and leaves the table as it was. The daily workflow writes the
  count itself (step 4.5): its loop, entered below the limit, ends with a schedule
  within the limit.
\<close>

theorem increment_sent_within_limit:
  assumes "select_schedule tbl d = Some r0" and "emails_sent r0 = 0"
    and "increment_calls fs d tbl = (Inr (), tbl')"
  shows "(\<exists>r. select_schedule tbl' d = Some r \<and>
             emails_sent r = int (length fs) \<and> emails_limit r = emails_limit r0 \<and>
             (fs \<noteq> [] \<or> 0 \<le> emails_limit r0 \<longrightarrow> emails_sent r \<le> emails_limit r) \<and>
             (emails_sent r = emails_limit r \<longrightarrow>
                (\<forall>fw. incrementEmailsSent None fw d tbl' = (Inl (QuotaExceeded d), tbl')))) \<and>
         (emails_sent sched < emails_limit sched \<longrightarrow>
            (\<exists>results sched' st'.
               workflow_loop wenv template i cs acc sched st = (results, sched', st') \<and>
               emails_limit sched' = emails_limit sched \<and>
               emails_sent sched' \<le> emails_limit sched'))"
proof -
  from increment_calls_sent [OF assms(3) assms(1)] obtain r where
    r: "select_schedule tbl' d = Some r" "emails_sent r = emails_sent r0 + int (length fs)"
       "emails_limit r = emails_limit r0" "fs \<noteq> [] \<longrightarrow> emails_sent r \<le> emails_limit r"
    by blast
  have "emails_sent r = emails_limit r \<longrightarrow>
          (\<forall>fw. incrementEmailsSent None fw d tbl' = (Inl (QuotaExceeded d), tbl'))"
    using increment_at_limit [OF r(1)] by simp
  with r assms(2) have calls: "\<exists>r. select_schedule tbl' d = Some r \<and>
             emails_sent r = int (length fs) \<and> emails_limit r = emails_limit r0 \<and>
             (fs \<noteq> [] \<or> 0 \<le> emails_limit r0 \<longrightarrow> emails_sent r \<le> emails_limit r) \<and>
             (emails_sent r = emails_limit r \<longrightarrow>
                (\<forall>fw. incrementEmailsSent None fw d tbl' = (Inl (QuotaExceeded d), tbl')))"
    by auto
  have "\<exists>results sched' st'.
               workflow_loop wenv template i cs acc sched st = (results, sched', st') \<and>
               emails_limit sched' = emails_limit sched \<and>
               emails_sent sched' \<le> emails_limit sched'"
    if "emails_sent sched < emails_limit sched"
    using workflow_loop_within_limit [OF that, of wenv template i cs acc st] by blast
  with calls show ?thesis by blast
qed

theorem increment_sent_within_limit_witness:
  "select_schedule (snd (increment_calls [(None, None), (None, None)] 4
      [\<lparr>scheduled_date = 4, emails_limit = 2, emails_sent = 0, is_completed = False\<rparr>])) 4 =
     Some \<lparr>scheduled_date = 4, emails_limit = 2, emails_sent = 2, is_completed = True\<rparr> \<and>
   incrementEmailsSent None None 4
     [\<lparr>scheduled_date = 4, emails_limit = 2, emails_sent = 2, is_completed = True\<rparr>] =
     (Inl (QuotaExceeded 4),
      [\<lparr>scheduled_date = 4, emails_limit = 2, emails_sent = 2, is_completed = True\<rparr>]) \<and>
   fst (snd (workflow_loop ex_orchestrator_env ''Default Template'' 0
     [ex_company 2 ''B'' 1 2 True ''pending'', ex_company 4 ''D'' 1 4 True ''pending''] []
     \<lparr>scheduled_date = 0, emails_limit = 5, emails_sent = 3, is_completed = False\<rparr>
     ex_orchestrator_store)) =
     \<lparr>scheduled_date = 0, emails_limit = 5, emails_sent = 4, is_completed = False\<rparr>"
proof -
  let ?r0 = "\<lparr>scheduled_date = 4, emails_limit = 2, emails_sent = 0, is_completed = False\<rparr>"
  let ?r2 = "\<lparr>scheduled_date = 4, emails_limit = 2, emails_sent = 2, is_completed = True\<rparr>"
  have sel: "select_schedule [?r0] 4 = Some ?r0" by (simp add: select_schedule_def)
  have run: "increment_calls [(None, None), (None, None)] 4 [?r0] = (Inr (), [?r2])"
    by (simp add: incrementEmailsSent_def getEmailSchedule_def select_schedule_def
        update_schedule_def Let_def)
  have calls: "select_schedule (snd (increment_calls [(None, None), (None, None)] 4 [?r0])) 4 =
      Some ?r2 \<and>
    incrementEmailsSent None None 4 [?r2] = (Inl (QuotaExceeded 4), [?r2])"
    using increment_sent_within_limit [OF sel _ run, THEN conjunct1] run
    by (simp add: select_schedule_def)
  have loop: "fst (snd (workflow_loop ex_orchestrator_env ''Default Template'' 0
     [ex_company 2 ''B'' 1 2 True ''pending'', ex_company 4 ''D'' 1 4 True ''pending''] []
     \<lparr>scheduled_date = 0, emails_limit = 5, emails_sent = 3, is_completed = False\<rparr>
     ex_orchestrator_store)) =
     \<lparr>scheduled_date = 0, emails_limit = 5, emails_sent = 4, is_completed = False\<rparr>"
    by (simp only: ex_workflow_loop fst_conv snd_conv)
  from calls loop show ?thesis by blast
qed

end
